theory Spec2Isabelle
  imports Complex_Main "HOL-Library.AList" "HOL-Library.List_Lexorder" "HOL-Library.Char_ord"
begin

section \<open>Common modelling conventions\<close>

text \<open>
  The Python dictionaries of the daemon keep insertion order, and that order is observed
  (the job log is written from \<^verbatim>\<open>self._jobs.values()\<close>, the default session is the
  first flagged one in \<^verbatim>\<open>self.sessions.values()\<close>). A dictionary is therefore an
  association list: \<open>map_of\<close> is \<^verbatim>\<open>d.get(k)\<close>, \<open>AList.update\<close> is \<^verbatim>\<open>d[k] = v\<close>
  (in place for a known key, at the end for a new one) and \<open>AList.delete\<close> is
  \<^verbatim>\<open>del d[k]\<close> / \<^verbatim>\<open>d.pop(k, None)\<close>.

  Time stamps are the ISO-8601 strings the source stores
  (\<^verbatim>\<open>datetime.now(timezone.utc).isoformat()\<close>) and are compared the way the source
  compares them, as strings. The clock is not part of the model: every operation that reads
  it takes the string it obtained as an argument. Identifiers drawn from \<^verbatim>\<open>uuid.uuid4()\<close>
  are arguments in the same way.

  A parameter bag or handler result (\<^verbatim>\<open>dict[str, Any]\<close>) is never inspected by the
  runtime; it is carried as a list of key/value strings.
\<close>

type_synonym payload = "(string \<times> string) list"

text \<open>
  A Python \<^verbatim>\<open>float\<close> is a finite number, an infinity or NaN. \<open>float_lt\<close> is its
  \<^verbatim>\<open><\<close>: every comparison with NaN is false. \<^verbatim>\<open>max(a, b)\<close> keeps \<open>a\<close> unless
  \<^verbatim>\<open>b > a\<close>, and \<^verbatim>\<open>min(a, b)\<close> keeps \<open>a\<close> unless \<^verbatim>\<open>b < a\<close>. \<open>within_unit\<close>
  says that a float lies in the interval from 0.0 to 1.0.
\<close>

datatype pyfloat = Finite real | PosInf | NegInf | NaN

fun float_lt :: "pyfloat \<Rightarrow> pyfloat \<Rightarrow> bool" where
  "float_lt NaN b = False"
| "float_lt a NaN = False"
| "float_lt (Finite a) (Finite b) = (a < b)"
| "float_lt NegInf NegInf = False"
| "float_lt NegInf b = True"
| "float_lt a NegInf = False"
| "float_lt PosInf b = False"
| "float_lt a PosInf = True"

definition py_max :: "pyfloat \<Rightarrow> pyfloat \<Rightarrow> pyfloat" where
  "py_max a b = (if float_lt a b then b else a)"

definition py_min :: "pyfloat \<Rightarrow> pyfloat \<Rightarrow> pyfloat" where
  "py_min a b = (if float_lt b a then b else a)"

fun within_unit :: "pyfloat \<Rightarrow> bool" where
  "within_unit (Finite r) = (0 \<le> r \<and> r \<le> 1)"
| "within_unit PosInf = False"
| "within_unit NegInf = False"
| "within_unit NaN = False"

text \<open>The exceptions the functions below raise, with their message.\<close>

datatype error = ValueError string | KeyError string

section \<open>Job queue (\<^verbatim>\<open>blender/src/fgp_blender/jobs.py\<close>)\<close>

datatype JobStatus = PENDING | RUNNING | COMPLETED | FAILED | CANCELLED

datatype JobType = RENDER_IMAGE | RENDER_ANIMATION | BAKE_PHYSICS | BAKE_TEXTURES | EXPORT

record Job =
  id_job :: string
  job_type :: JobType
  status :: JobStatus
  created_at :: string
  started_at :: "string option"
  completed_at :: "string option"
  progress :: pyfloat
  progress_message :: string
  params :: payload
  result :: "payload option"
  error :: "string option"
  session_id :: "string option"

text \<open>
  A handler is called once, with the job's parameters and the progress callback. What the
  queue sees of the call is the sequence of progress reports it makes and how it ends: it
  returns a result or raises an exception (\<^verbatim>\<open>str(e)\<close> is kept).
\<close>

datatype outcome = Returns payload | Raises string

type_synonym handler = "payload \<Rightarrow> (pyfloat \<times> string) list \<times> outcome"

text \<open>
  A record of the persisted log either decodes to a job (\<^verbatim>\<open>Job.from_dict\<close>) or makes
  \<^verbatim>\<open>Job.from_dict\<close> raise (unknown status or type, missing or extra field).
  \<open>jobs_file\<close> is \<open>None\<close> when \<^verbatim>\<open>jobs.json\<close> does not exist or cannot be read as
  a JSON document, and otherwise holds the records of its \<^verbatim>\<open>"jobs"\<close> array.
\<close>

datatype job_data = Record Job | Malformed

record JobQueue =
  jobs :: "(string \<times> Job) list"
  handlers :: "(string \<times> handler) list"
  queue :: "string list"
  jobs_file :: "job_data list option"

definition terminal :: "JobStatus \<Rightarrow> bool" where
  "terminal st \<longleftrightarrow> st = COMPLETED \<or> st = FAILED \<or> st = CANCELLED"

text \<open>
  \<^verbatim>\<open>_save_jobs\<close>: the 100 most recently created jobs, newest first.
  \<^verbatim>\<open>sorted(..., reverse=True)\<close> is stable: jobs with equal keys keep their order.
  Writing the file is taken to succeed (the source logs and swallows a failure).
\<close>

definition sorted_reverse :: "Job list \<Rightarrow> Job list" where
  "sorted_reverse js = rev (sort_key created_at (rev js))"

definition save_jobs :: "JobQueue \<Rightarrow> JobQueue" where
  "save_jobs s =
     s\<lparr>jobs_file := Some (map Record (take 100 (sorted_reverse (map snd (jobs s)))))\<rparr>"

text \<open>
  \<^verbatim>\<open>_load_jobs\<close>: the loop over the records. The job is stored first and then reset
  through the same reference, so the table holds the reset job. An exception of
  \<^verbatim>\<open>Job.from_dict\<close> leaves the loop; what was loaded before stays.
\<close>

fun load_records :: "job_data list \<Rightarrow> JobQueue \<Rightarrow> JobQueue" where
  "load_records [] s = s"
| "load_records (Malformed # rest) s = s"
| "load_records (Record job # rest) s =
     (if status job = PENDING \<or> status job = RUNNING
      then load_records rest
             (s\<lparr>jobs := AList.update (id_job job) (job\<lparr>status := PENDING, progress := Finite 0\<rparr>) (jobs s),
                queue := queue s @ [id_job job]\<rparr>)
      else load_records rest (s\<lparr>jobs := AList.update (id_job job) job (jobs s)\<rparr>))"

definition load_jobs :: "JobQueue \<Rightarrow> JobQueue" where
  "load_jobs s = (case jobs_file s of None \<Rightarrow> s | Some records \<Rightarrow> load_records records s)"

text \<open>\<^verbatim>\<open>JobQueue.__init__\<close> with the log found on disk.\<close>

definition init_queue :: "job_data list option \<Rightarrow> JobQueue" where
  "init_queue file = load_jobs \<lparr>jobs = [], handlers = [], queue = [], jobs_file = file\<rparr>"

text \<open>\<^verbatim>\<open>submit\<close>, with the identifier and the time it drew.\<close>

definition submit ::
  "string \<Rightarrow> string \<Rightarrow> JobType \<Rightarrow> payload \<Rightarrow> handler \<Rightarrow> string option \<Rightarrow> JobQueue
     \<Rightarrow> string \<times> JobQueue" where
  "submit job_id now jt ps h sid s =
     (let job = \<lparr>id_job = job_id, job_type = jt, status = PENDING, created_at = now,
                 started_at = None, completed_at = None, progress = Finite 0, progress_message = [],
                 params = ps, result = None, error = None, session_id = sid\<rparr>;
          s1 = save_jobs (s\<lparr>jobs := AList.update job_id job (jobs s),
                           handlers := AList.update job_id h (handlers s)\<rparr>)
      in (job_id, s1\<lparr>queue := queue s1 @ [job_id]\<rparr>))"

definition get :: "string \<Rightarrow> JobQueue \<Rightarrow> Job option" where
  "get job_id s = map_of (jobs s) job_id"

text \<open>\<^verbatim>\<open>cancel\<close>: the returned flag and the queue afterwards.\<close>

definition cancel :: "string \<Rightarrow> string \<Rightarrow> JobQueue \<Rightarrow> bool \<times> JobQueue" where
  "cancel now job_id s =
     (case map_of (jobs s) job_id of
        None \<Rightarrow> (False, s)
      | Some job \<Rightarrow>
          if status job \<noteq> PENDING then (False, s)
          else (True,
                save_jobs (s\<lparr>jobs := AList.update job_id
                                        (job\<lparr>status := CANCELLED, completed_at := Some now\<rparr>) (jobs s),
                             handlers := AList.delete job_id (handlers s)\<rparr>)))"

text \<open>
  \<^verbatim>\<open>_process_job\<close> holds the lock three times; the three sections are three functions,
  so that what another thread does between them can be placed between them.

  First section: look the job and its handler up, and claim the job.
  The result is the job and the handler the worker goes on with, if it goes on.
\<close>

definition process_job_claim ::
  "string \<Rightarrow> string \<Rightarrow> JobQueue \<Rightarrow> (Job \<times> handler) option \<times> JobQueue" where
  "process_job_claim now job_id s =
     (case map_of (jobs s) job_id of
        None \<Rightarrow> (None, s)
      | Some job \<Rightarrow>
          (case map_of (handlers s) job_id of
             None \<Rightarrow>
               (None, save_jobs (s\<lparr>jobs := AList.update job_id
                    (job\<lparr>status := FAILED, error := Some ''No handler registered''\<rparr>) (jobs s)\<rparr>))
           | Some h \<Rightarrow>
               (Some (job, h), save_jobs (s\<lparr>jobs := AList.update job_id
                    (job\<lparr>status := RUNNING, started_at := Some now\<rparr>) (jobs s)\<rparr>))))"

text \<open>\<^verbatim>\<open>progress_callback\<close>, as the handler calls it.\<close>

definition progress_callback :: "string \<Rightarrow> pyfloat \<Rightarrow> string \<Rightarrow> JobQueue \<Rightarrow> JobQueue" where
  "progress_callback job_id p message s =
     (case map_of (jobs s) job_id of
        None \<Rightarrow> s
      | Some job \<Rightarrow>
          s\<lparr>jobs := AList.update job_id
                      (job\<lparr>progress := py_min (py_max p (Finite 0)) (Finite 1),
                           progress_message := message\<rparr>) (jobs s)\<rparr>)"

text \<open>
  Last sections: the handler has returned or raised; the job is finalised and the handler
  reference dropped. The source writes through the reference it took when it claimed the
  job; the table holds that same object as long as the key is present.
\<close>

definition process_job_finish :: "string \<Rightarrow> string \<Rightarrow> outcome \<Rightarrow> JobQueue \<Rightarrow> JobQueue" where
  "process_job_finish now job_id out s =
     (let s1 = (case map_of (jobs s) job_id of
                  None \<Rightarrow> save_jobs s
                | Some job \<Rightarrow>
                    (case out of
                       Returns r \<Rightarrow>
                         save_jobs (s\<lparr>jobs := AList.update job_id
                           (job\<lparr>status := COMPLETED, completed_at := Some now,
                                progress := Finite 1, result := Some r\<rparr>) (jobs s)\<rparr>)
                     | Raises e \<Rightarrow>
                         save_jobs (s\<lparr>jobs := AList.update job_id
                           (job\<lparr>status := FAILED, completed_at := Some now,
                                error := Some e\<rparr>) (jobs s)\<rparr>)))
      in s1\<lparr>handlers := AList.delete job_id (handlers s1)\<rparr>)"

text \<open>
  \<^verbatim>\<open>_process_job\<close> run by one worker with no other thread in between: claim, run the
  handler on the job's parameters (its progress reports in order), finalise.
\<close>

definition process_job :: "string \<Rightarrow> string \<Rightarrow> string \<Rightarrow> JobQueue \<Rightarrow> JobQueue" where
  "process_job now_start now_end job_id s =
     (case process_job_claim now_start job_id s of
        (None, s1) \<Rightarrow> s1
      | (Some (job, h), s1) \<Rightarrow>
          (case h (params job) of
             (reports, out) \<Rightarrow>
               process_job_finish now_end job_id out
                 (fold (\<lambda>(p, m). progress_callback job_id p m) reports s1)))"

text \<open>
  One turn of \<^verbatim>\<open>_worker_loop\<close>: take the next identifier from the queue, if there is
  one, and process it.
\<close>

definition worker_step :: "string \<Rightarrow> string \<Rightarrow> JobQueue \<Rightarrow> JobQueue" where
  "worker_step now_start now_end s =
     (case queue s of
        [] \<Rightarrow> s
      | job_id # rest \<Rightarrow> process_job now_start now_end job_id (s\<lparr>queue := rest\<rparr>))"

text \<open>
  \<^verbatim>\<open>cleanup\<close>. \<open>cutoff_iso\<close> is the string of the clock minus \<^verbatim>\<open>max_age_hours\<close>.
  The loop runs over a snapshot of the items; an empty \<^verbatim>\<open>completed_at\<close> string is
  falsy, like \<^verbatim>\<open>None\<close>.
\<close>

definition expired :: "string \<Rightarrow> Job \<Rightarrow> bool" where
  "expired cutoff_iso job \<longleftrightarrow>
     (status job = COMPLETED \<or> status job = FAILED \<or> status job = CANCELLED) \<and>
     (case completed_at job of None \<Rightarrow> False | Some t \<Rightarrow> t \<noteq> [] \<and> t < cutoff_iso)"

fun cleanup_loop ::
  "string \<Rightarrow> (string \<times> Job) list \<Rightarrow> (string \<times> Job) list \<times> nat \<Rightarrow> (string \<times> Job) list \<times> nat" where
  "cleanup_loop cutoff_iso [] acc = acc"
| "cleanup_loop cutoff_iso ((job_id, job) # items) (js, removed) =
     (if expired cutoff_iso job
      then cleanup_loop cutoff_iso items (AList.delete job_id js, removed + 1)
      else cleanup_loop cutoff_iso items (js, removed))"

definition cleanup :: "string \<Rightarrow> JobQueue \<Rightarrow> nat \<times> JobQueue" where
  "cleanup cutoff_iso s =
     (case cleanup_loop cutoff_iso (jobs s) (jobs s, 0) of
        (js, removed) \<Rightarrow>
          (removed, if removed > 0 then save_jobs (s\<lparr>jobs := js\<rparr>) else s\<lparr>jobs := js\<rparr>))"

section \<open>Session manager (\<^verbatim>\<open>blender/src/fgp_blender/session.py\<close>)\<close>

record Session =
  id_session :: string
  name :: string
  blend_file :: string
  created_at_session :: string
  modified_at :: string
  is_default :: bool
  metadata :: payload

text \<open>
  A record of the persisted index either decodes to a session or makes
  \<^verbatim>\<open>Session.from_dict\<close> raise. \<open>sessions_file\<close> is \<open>None\<close> when
  \<^verbatim>\<open>sessions.json\<close> does not exist or cannot be read, and otherwise holds the
  records of its \<^verbatim>\<open>"sessions"\<close> array and its \<^verbatim>\<open>"current"\<close> entry.
  \<open>files\<close> is the set of paths that exist on disk.
\<close>

datatype session_data = SessionRecord Session | MalformedSession

record SessionManager =
  sessions :: "(string \<times> Session) list"
  current_session_id :: "string option"
  sessions_dir :: string
  files :: "string set"
  sessions_file :: "(session_data list \<times> string option) option"

definition save_sessions :: "SessionManager \<Rightarrow> SessionManager" where
  "save_sessions s =
     s\<lparr>sessions_file := Some (map (SessionRecord \<circ> snd) (sessions s), current_session_id s)\<rparr>"

fun load_session_records :: "session_data list \<Rightarrow> SessionManager \<Rightarrow> SessionManager" where
  "load_session_records [] s = s"
| "load_session_records (MalformedSession # rest) s = s"
| "load_session_records (SessionRecord session # rest) s =
     (if blend_file session \<in> files s
      then load_session_records rest
             (s\<lparr>sessions := AList.update (id_session session) session (sessions s)\<rparr>)
      else load_session_records rest s)"

definition load_sessions :: "SessionManager \<Rightarrow> SessionManager" where
  "load_sessions s =
     (case sessions_file s of None \<Rightarrow> s | Some (records, cur) \<Rightarrow> load_session_records records s)"

text \<open>
  \<^verbatim>\<open>next((s for s in self.sessions.values() if s.is_default), None)\<close>: the first
  session flagged as default, in the order of the dictionary.
\<close>

definition default_session :: "SessionManager \<Rightarrow> Session option" where
  "default_session s = find is_default (map snd (sessions s))"

definition create_default_session :: "string \<Rightarrow> SessionManager \<Rightarrow> Session \<times> SessionManager" where
  "create_default_session now s =
     (let session = \<lparr>id_session = ''default'', name = ''Default'',
                     blend_file = sessions_dir s @ ''/default.blend'',
                     created_at_session = now, modified_at = now,
                     is_default = True, metadata = []\<rparr>
      in (session, save_sessions (s\<lparr>sessions := AList.update ''default'' session (sessions s)\<rparr>)))"

text \<open>\<^verbatim>\<open>SessionManager.__init__\<close>, with the directory, the disk and the clock it finds.\<close>

definition init_sessions ::
  "string \<Rightarrow> string set \<Rightarrow> (session_data list \<times> string option) option \<Rightarrow> string
     \<Rightarrow> SessionManager" where
  "init_sessions dir disk file now =
     (let s1 = load_sessions \<lparr>sessions = [], current_session_id = None, sessions_dir = dir,
                               files = disk, sessions_file = file\<rparr>;
          s2 = (if \<not> list_ex is_default (map snd (sessions s1))
                then snd (create_default_session now s1) else s1)
      in case default_session s2 of
           None \<Rightarrow> s2
         | Some d \<Rightarrow> s2\<lparr>current_session_id := Some (id_session d)\<rparr>)"

text \<open>\<^verbatim>\<open>create\<close>, with the identifier and the time it drew.\<close>

definition create ::
  "string \<Rightarrow> string \<Rightarrow> string \<Rightarrow> payload option \<Rightarrow> SessionManager \<Rightarrow> Session \<times> SessionManager" where
  "create session_id' now nm md s =
     (let session = \<lparr>id_session = session_id', name = nm,
                     blend_file = sessions_dir s @ ''/'' @ session_id' @ ''.blend'',
                     created_at_session = now, modified_at = now, is_default = False,
                     metadata = (case md of None \<Rightarrow> [] | Some m \<Rightarrow> m)\<rparr>
      in (session, save_sessions (s\<lparr>sessions := AList.update session_id' session (sessions s)\<rparr>)))"

definition get_session :: "string \<Rightarrow> SessionManager \<Rightarrow> Session option" where
  "get_session session_id' s = map_of (sessions s) session_id'"

text \<open>\<^verbatim>\<open>get_current\<close>: an empty identifier is falsy, like \<^verbatim>\<open>None\<close>.\<close>

definition get_current :: "SessionManager \<Rightarrow> Session option" where
  "get_current s =
     (case current_session_id s of
        None \<Rightarrow> None
      | Some cur \<Rightarrow> if cur \<noteq> [] then map_of (sessions s) cur else None)"

text \<open>
  An operation that can raise returns what it returned or raised together with the
  manager as it is then.
\<close>

definition switch :: "string \<Rightarrow> SessionManager \<Rightarrow> (error + Session) \<times> SessionManager" where
  "switch session_id' s =
     (case map_of (sessions s) session_id' of
        None \<Rightarrow> (Inl (ValueError (''Session not found: '' @ session_id')), s)
      | Some session \<Rightarrow>
          (Inr session, save_sessions (s\<lparr>current_session_id := Some session_id'\<rparr>)))"

definition list_sessions :: "SessionManager \<Rightarrow> Session list" where
  "list_sessions s = map snd (sessions s)"

definition delete :: "string \<Rightarrow> SessionManager \<Rightarrow> (error + bool) \<times> SessionManager" where
  "delete session_id' s =
     (case map_of (sessions s) session_id' of
        None \<Rightarrow> (Inr False, s)
      | Some session \<Rightarrow>
          if is_default session then (Inl (ValueError ''Cannot delete default session''), s)
          else
            (let s1 = s\<lparr>files := files s - {blend_file session}\<rparr>;
                 s2 = s1\<lparr>sessions := AList.delete session_id' (sessions s1)\<rparr>;
                 s3 = (if current_session_id s2 = Some session_id'
                       then (case default_session s2 of
                               None \<Rightarrow> s2
                             | Some d \<Rightarrow> s2\<lparr>current_session_id := Some (id_session d)\<rparr>)
                       else s2)
             in (Inr True, save_sessions s3)))"

text \<open>
  \<^verbatim>\<open>session_id or self.current_session_id\<close>: an omitted or empty argument gives the
  current identifier.
\<close>

definition or_current :: "string option \<Rightarrow> SessionManager \<Rightarrow> string option" where
  "or_current session_id' s =
     (case session_id' of
        None \<Rightarrow> current_session_id s
      | Some x \<Rightarrow> if x \<noteq> [] then Some x else current_session_id s)"

definition reset :: "string \<Rightarrow> string option \<Rightarrow> SessionManager \<Rightarrow> (error + Session) \<times> SessionManager" where
  "reset now session_id' s =
     (case or_current session_id' s of
        None \<Rightarrow> (Inl (ValueError ''No session specified and no current session''), s)
      | Some sid \<Rightarrow>
          if sid = [] then (Inl (ValueError ''No session specified and no current session''), s)
          else
            (case map_of (sessions s) sid of
               None \<Rightarrow> (Inl (ValueError (''Session not found: '' @ sid)), s)
             | Some session \<Rightarrow>
                 (let session' = session\<lparr>modified_at := now\<rparr>
                  in (Inr session',
                      save_sessions (s\<lparr>files := files s - {blend_file session},
                                       sessions := AList.update sid session' (sessions s)\<rparr>)))))"

definition update_modified :: "string \<Rightarrow> string option \<Rightarrow> SessionManager \<Rightarrow> SessionManager" where
  "update_modified now session_id' s =
     (case or_current session_id' s of
        None \<Rightarrow> s
      | Some sid \<Rightarrow>
          if sid = [] then s
          else
            (case map_of (sessions s) sid of
               None \<Rightarrow> s
             | Some session \<Rightarrow>
                 save_sessions (s\<lparr>sessions := AList.update sid (session\<lparr>modified_at := now\<rparr>)
                                                 (sessions s)\<rparr>)))"

definition get_blend_file :: "string option \<Rightarrow> SessionManager \<Rightarrow> error + string" where
  "get_blend_file session_id' s =
     (case or_current session_id' s of
        None \<Rightarrow> Inl (ValueError ''No session specified and no current session'')
      | Some sid \<Rightarrow>
          if sid = [] then Inl (ValueError ''No session specified and no current session'')
          else
            (case map_of (sessions s) sid of
               None \<Rightarrow> Inl (ValueError (''Session not found: '' @ sid))
             | Some session \<Rightarrow> Inr (blend_file session)))"

text \<open>
  The operations of the manager as values, and the manager after one of them (whether it
  returned or raised).
\<close>

datatype session_op =
    Create string string string "payload option"
  | Get string
  | GetCurrent
  | Switch string
  | ListSessions
  | Delete string
  | Reset string "string option"
  | UpdateModified string "string option"
  | GetBlendFile "string option"

fun run_op :: "session_op \<Rightarrow> SessionManager \<Rightarrow> SessionManager" where
  "run_op (Create session_id' now nm md) s = snd (create session_id' now nm md s)"
| "run_op (Get session_id') s = s"
| "run_op GetCurrent s = s"
| "run_op (Switch session_id') s = snd (switch session_id' s)"
| "run_op ListSessions s = s"
| "run_op (Delete session_id') s = snd (delete session_id' s)"
| "run_op (Reset now session_id') s = snd (reset now session_id' s)"
| "run_op (UpdateModified now session_id') s = update_modified now session_id' s"
| "run_op (GetBlendFile session_id') s = s"

text \<open>
  What the dictionary of sessions is by construction: one entry per key, every session
  stored under its own non-empty identifier.
\<close>

definition index_ok :: "SessionManager \<Rightarrow> bool" where
  "index_ok s \<longleftrightarrow>
     distinct (map fst (sessions s)) \<and>
     (\<forall>(k, session) \<in> set (sessions s). id_session session = k \<and> k \<noteq> [])"

section \<open>Main-thread execution bridge (\<^verbatim>\<open>blender/scripts/run_daemon_gui_v2.py\<close>)\<close>

text \<open>
  Modelled from the spec: the module \<^verbatim>\<open>fgp_daemon.protocol\<close> (the classes
  \<^verbatim>\<open>Request\<close>, \<^verbatim>\<open>Response\<close> and \<^verbatim>\<open>ErrorCodes\<close>) is not among the sources.
  A request is \<open>{id, protocol_version, method, params}\<close>; a response is
  \<open>Success{id, result, server_ms}\<close> or \<open>Failure{id, error: {code, message}, server_ms}\<close>;
  the error codes are a closed enumeration with at least parse error, method not found,
  invalid params, internal error and timeout.
\<close>

record Request =
  id_request :: string
  protocol_version :: int
  method_request :: string
  params_request :: payload

datatype ErrorCodes = PARSE_ERROR | METHOD_NOT_FOUND | INVALID_PARAMS | INTERNAL_ERROR | TIMEOUT

datatype Response =
    Success string payload real
  | Failure string ErrorCodes string real

text \<open>
  What the timer callback stores for a request: \<^verbatim>\<open>("ok", result)\<close> or
  \<^verbatim>\<open>("error", str(e))\<close>.
\<close>

datatype stored = Ok payload | Error string

text \<open>
  The three module-level tables, and the \<^verbatim>\<open>threading.Event\<close> objects as a store of
  their own: an event is a number, \<open>event_set\<close> holds the events that have been set, and
  \<open>result_events\<close> maps a request identifier to the event registered for it. A thread
  waits on the event it created, whatever the table holds later.
\<close>

record Bridge =
  operation_queue :: "(string \<times> string \<times> payload) list"
  result_store :: "(string \<times> stored) list"
  result_events :: "(string \<times> nat) list"
  event_set :: "nat set"
  next_event :: nat

text \<open>
  \<^verbatim>\<open>process_queue\<close>, the timer callback on the main thread: it drains the queue.
  \<open>service\<close> is the body of its inner \<^verbatim>\<open>try\<close> (the built-in methods and
  \<^verbatim>\<open>service.dispatch\<close>): it returns a result or raises.
\<close>

fun process_items ::
  "(string \<Rightarrow> payload \<Rightarrow> outcome) \<Rightarrow> (string \<times> string \<times> payload) list \<Rightarrow> Bridge \<Rightarrow> Bridge" where
  "process_items service [] s = s"
| "process_items service ((request_id, m, ps) # items) s =
     (let s1 = s\<lparr>result_store := AList.update request_id
                    (case service m ps of Returns r \<Rightarrow> Ok r | Raises e \<Rightarrow> Error e)
                    (result_store s)\<rparr>;
          s2 = (case map_of (result_events s1) request_id of
                  None \<Rightarrow> s1
                | Some ev \<Rightarrow> s1\<lparr>event_set := insert ev (event_set s1)\<rparr>)
      in process_items service items s2)"

definition process_queue :: "(string \<Rightarrow> payload \<Rightarrow> outcome) \<Rightarrow> Bridge \<Rightarrow> Bridge" where
  "process_queue service s = process_items service (operation_queue s) (s\<lparr>operation_queue := []\<rparr>)"

text \<open>
  \<^verbatim>\<open>handle_request\<close>. \<open>from_ndjson_line\<close> stands for
  \<^verbatim>\<open>Request.from_ndjson_line(request_data.decode())\<close>: it gives the request, or the
  text of the exception it raised. \<open>during_wait\<close> is what the other threads do to the
  tables while this thread sits in \<^verbatim>\<open>event.wait(timeout=30.0)\<close>; the wait returns true
  exactly when this thread's event has been set by then. \<open>server_ms\<close> is the elapsed time
  the thread measures. The response is returned as a value; the source sends its
  \<^verbatim>\<open>to_ndjson_line().encode()\<close>. \<^verbatim>\<open>del result_events[request.id]\<close> raises
  \<^verbatim>\<open>KeyError\<close> when the key is gone.
\<close>

definition handle_request ::
  "(string \<Rightarrow> string + Request) \<Rightarrow> (Bridge \<Rightarrow> Bridge) \<Rightarrow> real \<Rightarrow> string \<Rightarrow> Bridge
     \<Rightarrow> (error + Response) \<times> Bridge" where
  "handle_request from_ndjson_line during_wait server_ms request_data s =
     (case from_ndjson_line request_data of
        Inl e \<Rightarrow> (Inr (Failure ''unknown'' PARSE_ERROR (''Invalid request: '' @ e) server_ms), s)
      | Inr request \<Rightarrow>
          (let event = next_event s;
               s1 = s\<lparr>next_event := Suc event,
                      result_events := AList.update (id_request request) event (result_events s)\<rparr>;
               s2 = s1\<lparr>operation_queue := operation_queue s1 @
                          [(id_request request, method_request request, params_request request)]\<rparr>;
               s3 = during_wait s2
           in if event \<in> event_set s3
              then
                (let data = (case map_of (result_store s3) (id_request request) of
                               None \<Rightarrow> Error ''No result'' | Some d \<Rightarrow> d);
                     s4 = s3\<lparr>result_store := AList.delete (id_request request) (result_store s3)\<rparr>
                 in case map_of (result_events s4) (id_request request) of
                      None \<Rightarrow> (Inl (KeyError (id_request request)), s4)
                    | Some ev \<Rightarrow>
                        (let s5 = s4\<lparr>result_events :=
                                        AList.delete (id_request request) (result_events s4)\<rparr>
                         in case data of
                              Ok r \<Rightarrow> (Inr (Success (id_request request) r server_ms), s5)
                            | Error e \<Rightarrow>
                                (Inr (Failure (id_request request) INTERNAL_ERROR e server_ms), s5)))
              else
                (Inr (Failure (id_request request) INTERNAL_ERROR ''Operation timed out'' server_ms),
                 s3)))"

text \<open>The tables of a freshly started daemon.\<close>

definition init_bridge :: Bridge where
  "init_bridge = \<lparr>operation_queue = [], result_store = [], result_events = [],
                  event_set = {}, next_event = 0\<rparr>"

section \<open>Runs of the job queue\<close>

text \<open>
  The sections of the queue that run under its lock, as events, so that a run of the
  queue in any interleaving of its threads is a list of events. \<open>Restart\<close> is the end
  of the process and the construction of a new queue on the log it left.
\<close>

datatype job_event =
    Submit string string JobType payload handler "string option"
  | Cancel string string
  | Claim string string
  | Progress string pyfloat string
  | Finish string string outcome
  | WorkerStep string string
  | Cleanup string
  | Restart

fun apply_event :: "job_event \<Rightarrow> JobQueue \<Rightarrow> JobQueue" where
  "apply_event (Submit job_id now jt ps h sid) s = snd (submit job_id now jt ps h sid s)"
| "apply_event (Cancel now job_id) s = snd (cancel now job_id s)"
| "apply_event (Claim now job_id) s = snd (process_job_claim now job_id s)"
| "apply_event (Progress job_id p message) s = progress_callback job_id p message s"
| "apply_event (Finish now job_id out) s = process_job_finish now job_id out s"
| "apply_event (WorkerStep now_start now_end) s = worker_step now_start now_end s"
| "apply_event (Cleanup cutoff_iso) s = snd (cleanup cutoff_iso s)"
| "apply_event Restart s = init_queue (jobs_file s)"

definition progress_in_range :: "JobQueue \<Rightarrow> bool" where
  "progress_in_range s \<longleftrightarrow> (\<forall>(job_id, job) \<in> set (jobs s). within_unit (progress job))"

text \<open>The records the loop of \<^verbatim>\<open>_load_jobs\<close> gets through: those before the first
  record that does not decode.\<close>

fun loaded :: "job_data list \<Rightarrow> Job list" where
  "loaded [] = []"
| "loaded (Malformed # rest) = []"
| "loaded (Record job # rest) = job # loaded rest"

text \<open>
  The same bound on the jobs of the log, and both together: what a run of the queue
  maintains.
\<close>

definition log_in_range :: "JobQueue \<Rightarrow> bool" where
  "log_in_range s \<longleftrightarrow>
     (case jobs_file s of
        None \<Rightarrow> True
      | Some records \<Rightarrow> \<forall>job \<in> set (loaded records). within_unit (progress job))"

definition queue_in_range :: "JobQueue \<Rightarrow> bool" where
  "queue_in_range s \<longleftrightarrow> progress_in_range s \<and> log_in_range s"

text \<open>
  A handler, an event and a table of handlers in which no progress report is NaN.
\<close>

definition handler_ok :: "handler \<Rightarrow> bool" where
  "handler_ok h \<longleftrightarrow> (\<forall>ps. NaN \<notin> fst ` set (fst (h ps)))"

fun event_ok :: "job_event \<Rightarrow> bool" where
  "event_ok (Submit job_id now jt ps h sid) = handler_ok h"
| "event_ok (Progress job_id p message) = (p \<noteq> NaN)"
| "event_ok e = True"

definition handlers_ok :: "JobQueue \<Rightarrow> bool" where
  "handlers_ok s \<longleftrightarrow> (\<forall>(job_id, h) \<in> set (handlers s). handler_ok h)"

section \<open>Example inputs\<close>

text \<open>A handler that reports half-way and returns its parameters.\<close>

definition ex_handler :: handler where
  "ex_handler ps = ([(Finite (1/2), ''half'')], Returns ps)"

text \<open>A handler whose progress report is NaN (a ratio of two zero floats, say) and that
  then raises.\<close>

definition ex_nan_handler :: handler where
  "ex_nan_handler ps = ([(NaN, ''frame 0 of 0'')], Raises ''nothing to render'')"

definition ex_nan_queue :: JobQueue where
  "ex_nan_queue =
     worker_step ''2026-01-17T10:00:01+00:00'' ''2026-01-17T10:00:02+00:00''
       (snd (submit ''job-1'' ''2026-01-17T10:00:00+00:00'' RENDER_IMAGE [] ex_nan_handler None
               (init_queue None)))"

text \<open>A fresh queue (no log on disk) after one \<^verbatim>\<open>submit\<close>.\<close>

definition ex_queue :: JobQueue where
  "ex_queue = snd (submit ''job-1'' ''2026-01-17T10:00:00+00:00'' RENDER_IMAGE [] ex_handler None
                     (init_queue None))"

definition ex_job :: "string \<Rightarrow> JobStatus \<Rightarrow> string option \<Rightarrow> real \<Rightarrow> Job" where
  "ex_job i st done pr =
     \<lparr>id_job = i, job_type = EXPORT, status = st, created_at = ''2026-01-10T08:00:00+00:00'',
      started_at = None, completed_at = done, progress = Finite pr, progress_message = [],
      params = [], result = None, error = None, session_id = None\<rparr>"

text \<open>A job table with an old finished job, a recent failed one and an old pending one.\<close>

definition ex_table :: JobQueue where
  "ex_table =
     \<lparr>jobs = [(''job-a'', ex_job ''job-a'' COMPLETED (Some ''2026-01-10T09:00:00+00:00'') 1),
              (''job-b'', ex_job ''job-b'' FAILED (Some ''2026-01-17T09:30:00+00:00'') (1/4)),
              (''job-c'', ex_job ''job-c'' PENDING None 0)],
      handlers = [], queue = [''job-c''], jobs_file = None\<rparr>"

text \<open>
  The queue of a process that ends with one job running and one pending, and a log with
  a record that does not decode.
\<close>

definition ex_crashed :: JobQueue where
  "ex_crashed =
     snd (submit ''job-2'' ''2026-01-17T10:00:05+00:00'' EXPORT [] ex_handler None
       (progress_callback ''job-1'' (Finite (1/2)) ''half''
         (snd (process_job_claim ''2026-01-17T10:00:01+00:00'' ''job-1'' ex_queue))))"

definition ex_log :: "job_data list" where
  "ex_log = [Record (ex_job ''job-b'' RUNNING None (1/4)),
             Record (ex_job ''job-c'' PENDING None 0),
             Record (ex_job ''job-a'' COMPLETED (Some ''2026-01-10T09:00:00+00:00'') 1),
             Malformed,
             Record (ex_job ''job-d'' PENDING None 0)]"

text \<open>
  A manager after its first boot (no index on disk), the creation of a session and the
  switch to it; the worker has written the new session's file since.
\<close>

definition ex_default :: Session where
  "ex_default =
     \<lparr>id_session = ''default'', name = ''Default'',
      blend_file = ''/home/u/.fgp/services/blender/sessions/default.blend'',
      created_at_session = ''2026-01-17T09:00:00+00:00'',
      modified_at = ''2026-01-17T09:00:00+00:00'', is_default = True, metadata = []\<rparr>"

definition ex_work :: Session where
  "ex_work =
     \<lparr>id_session = ''a1b2c3d4'', name = ''work'',
      blend_file = ''/home/u/.fgp/services/blender/sessions/a1b2c3d4.blend'',
      created_at_session = ''2026-01-17T10:00:00+00:00'',
      modified_at = ''2026-01-17T10:00:00+00:00'', is_default = False, metadata = []\<rparr>"

definition ex_manager :: SessionManager where
  "ex_manager =
     (snd (switch ''a1b2c3d4''
        (snd (create ''a1b2c3d4'' ''2026-01-17T10:00:00+00:00'' ''work'' None
           (init_sessions ''/home/u/.fgp/services/blender/sessions'' {} None
              ''2026-01-17T09:00:00+00:00'')))))
     \<lparr>files := {''/home/u/.fgp/services/blender/sessions/a1b2c3d4.blend''}\<rparr>"

text \<open>
  A decoder that knows one line, and a service that answers every method with the same
  result.
\<close>

definition ex_decode :: "string \<Rightarrow> string + Request" where
  "ex_decode line =
     (if line = ''health''
      then Inr \<lparr>id_request = ''r1'', protocol_version = 1, method_request = ''health'',
                params_request = []\<rparr>
      else Inl ''Expecting value: line 1 column 1 (char 0)'')"

definition ex_service :: "string \<Rightarrow> payload \<Rightarrow> outcome" where
  "ex_service m ps = Returns [(''status'', ''healthy'')]"

section \<open>Lemmas on dictionaries\<close>

lemma set_update_subset: "set (AList.update k v al) \<subseteq> insert (k, v) (set al)"
  by (induction al) auto

lemma delete_as_filter: "AList.delete k al = filter (\<lambda>p. fst p \<noteq> k) al"
  by (induction al) auto

lemma set_delete_subset: "set (AList.delete k al) \<subseteq> set al"
  by (simp add: delete_as_filter)

lemmas ex_simps = ex_queue_def ex_handler_def ex_table_def ex_job_def submit_def init_queue_def
  load_jobs_def save_jobs_def sorted_reverse_def cancel_def Let_def worker_step_def
  process_job_def process_job_claim_def process_job_finish_def progress_callback_def get_def
  py_max_def py_min_def ex_nan_handler_def ex_nan_queue_def

section \<open>Properties of the job queue\<close>

text \<open>
  C3. \<^verbatim>\<open>cancel(job_id)\<close> returns true exactly when the job is known and its status is
  Pending. When it returns true the job is stored with status Cancelled and
  \<^verbatim>\<open>completed_at\<close> set to the time of the call, nothing else of it changed, and no
  handler is stored under its identifier any more. When it returns false the queue,
  and so the job table, is as it was.
\<close>

theorem cancel_true_iff_pending:
  "(fst (cancel now job_id s) \<longleftrightarrow>
      (\<exists>job. map_of (jobs s) job_id = Some job \<and> status job = PENDING)) \<and>
   (fst (cancel now job_id s) \<longrightarrow>
      (\<exists>job. map_of (jobs s) job_id = Some job \<and>
         map_of (jobs (snd (cancel now job_id s))) job_id
           = Some (job\<lparr>status := CANCELLED, completed_at := Some now\<rparr>)) \<and>
      map_of (handlers (snd (cancel now job_id s))) job_id = None) \<and>
   (\<not> fst (cancel now job_id s) \<longrightarrow> snd (cancel now job_id s) = s)"
  by (auto simp: cancel_def save_jobs_def update_conv' delete_conv' split: option.splits)

text \<open>
  The pending job of the example queue is cancelled; an unknown identifier is not, and
  the queue stays as it is.
\<close>

theorem cancel_true_iff_pending_witness:
  "fst (cancel ''2026-01-17T10:00:01+00:00'' ''job-1'' ex_queue) \<and>
   map_of (handlers (snd (cancel ''2026-01-17T10:00:01+00:00'' ''job-1'' ex_queue))) ''job-1'' = None \<and>
   \<not> fst (cancel ''2026-01-17T10:00:01+00:00'' ''job-2'' ex_queue) \<and>
   snd (cancel ''2026-01-17T10:00:01+00:00'' ''job-2'' ex_queue) = ex_queue"
  using cancel_true_iff_pending [of "''2026-01-17T10:00:01+00:00''" "''job-1''" ex_queue]
        cancel_true_iff_pending [of "''2026-01-17T10:00:01+00:00''" "''job-2''" ex_queue]
  by (simp add: ex_simps)

text \<open>
  C1. A terminal job is meant to stay as it is. It does not: \<^verbatim>\<open>cancel\<close> leaves the
  identifier of the job in the queue and removes its handler, and \<^verbatim>\<open>_process_job\<close>
  does not look at the status. After submit and cancel the job is Cancelled; the worker
  that then takes its identifier from the queue finds no handler and stores the job as
  Failed with the error ``No handler registered''.
\<close>

theorem cancelled_job_ends_failed:
  "fst (cancel ''2026-01-17T10:00:01+00:00'' ''job-1'' ex_queue) \<and>
   map_option status (get ''job-1'' (snd (cancel ''2026-01-17T10:00:01+00:00'' ''job-1'' ex_queue)))
     = Some CANCELLED \<and>
   queue (snd (cancel ''2026-01-17T10:00:01+00:00'' ''job-1'' ex_queue)) = [''job-1''] \<and>
   map_option status (get ''job-1''
     (worker_step ''2026-01-17T10:00:02+00:00'' ''2026-01-17T10:00:03+00:00''
        (snd (cancel ''2026-01-17T10:00:01+00:00'' ''job-1'' ex_queue)))) = Some FAILED \<and>
   map_option error (get ''job-1''
     (worker_step ''2026-01-17T10:00:02+00:00'' ''2026-01-17T10:00:03+00:00''
        (snd (cancel ''2026-01-17T10:00:01+00:00'' ''job-1'' ex_queue))))
     = Some (Some ''No handler registered'')"
  by (simp add: ex_simps)

text \<open>
  The same in every queue: whenever \<^verbatim>\<open>cancel\<close> succeeds, the worker that processes
  the identifier next turns the cancelled job into a failed one.
\<close>

lemma cancel_then_worker_fails:
  assumes "fst (cancel t1 job_id s)"
  shows "map_option status (get job_id (snd (cancel t1 job_id s))) = Some CANCELLED \<and>
         map_option status (get job_id (process_job t2 t3 job_id (snd (cancel t1 job_id s))))
           = Some FAILED"
proof -
  from assms obtain job where j: "map_of (jobs s) job_id = Some job" "status job = PENDING"
    by (auto simp: cancel_def split: option.splits if_splits)
  let ?s = "snd (cancel t1 job_id s)"
  have c: "map_of (jobs ?s) job_id = Some (job\<lparr>status := CANCELLED, completed_at := Some t1\<rparr>)"
    and h: "map_of (handlers ?s) job_id = None"
    using j by (simp_all add: cancel_def save_jobs_def update_conv' delete_conv')
  from c h show ?thesis
    by (simp add: get_def process_job_def process_job_claim_def save_jobs_def update_conv')
qed

text \<open>What the loop of \<^verbatim>\<open>cleanup\<close> leaves of a table, and what it counts.\<close>

lemma cleanup_loop_filter:
  "cleanup_loop c items (js, n) =
     (filter (\<lambda>p. fst p \<notin> fst ` {x \<in> set items. expired c (snd x)}) js,
      n + length (filter (\<lambda>x. expired c (snd x)) items))"
proof (induction items arbitrary: js n)
  case Nil
  then show ?case by simp
next
  case (Cons a items)
  obtain k j where a: "a = (k, j)" by (cases a)
  show ?case
  proof (cases "expired c j")
    case True
    have "filter (\<lambda>p. fst p \<notin> fst ` {x \<in> set items. expired c (snd x)}) (AList.delete k js)
        = filter (\<lambda>p. fst p \<notin> fst ` {x \<in> set (a # items). expired c (snd x)}) js"
    proof -
      have "fst ` {x \<in> set (a # items). expired c (snd x)}
              = insert k (fst ` {x \<in> set items. expired c (snd x)})"
        using True by (force simp: a)
      then show ?thesis
        by (auto simp: delete_as_filter intro!: filter_cong)
    qed
    with True show ?thesis by (simp add: a Cons.IH)
  next
    case False
    have "{x \<in> set (a # items). expired c (snd x)} = {x \<in> set items. expired c (snd x)}"
      using False by (auto simp: a)
    with False show ?thesis by (simp add: a Cons.IH)
  qed
qed

lemma cleanup_loop_self:
  assumes "distinct (map fst items)"
  shows "cleanup_loop c items (items, 0) =
           (filter (\<lambda>x. \<not> expired c (snd x)) items, length (filter (\<lambda>x. expired c (snd x)) items))"
proof -
  have "\<And>p. p \<in> set items \<Longrightarrow>
          (fst p \<notin> fst ` {x \<in> set items. expired c (snd x)}) = (\<not> expired c (snd p))"
  proof -
    fix p assume p: "p \<in> set items"
    show "(fst p \<notin> fst ` {x \<in> set items. expired c (snd x)}) = (\<not> expired c (snd p))"
    proof
      assume "fst p \<notin> fst ` {x \<in> set items. expired c (snd x)}"
      with p show "\<not> expired c (snd p)" by auto
    next
      assume ne: "\<not> expired c (snd p)"
      show "fst p \<notin> fst ` {x \<in> set items. expired c (snd x)}"
      proof
        assume "fst p \<in> fst ` {x \<in> set items. expired c (snd x)}"
        then obtain x where x: "x \<in> set items" "expired c (snd x)" "fst x = fst p" by auto
        from assms x(1) p x(3) have "x = p"
          by (metis eq_key_imp_eq_value prod.collapse)
        with x(2) ne show False by simp
      qed
    qed
  qed
  then have "filter (\<lambda>p. fst p \<notin> fst ` {x \<in> set items. expired c (snd x)}) items
           = filter (\<lambda>x. \<not> expired c (snd x)) items"
    by (intro filter_cong) auto
  then show ?thesis by (simp add: cleanup_loop_filter)
qed

text \<open>
  C6. \<^verbatim>\<open>cleanup\<close> keeps, in their order, exactly the jobs that are not both terminal
  (Completed, Failed or Cancelled) and stamped with a \<^verbatim>\<open>completed_at\<close> that is below
  the cutoff; it returns the number of jobs it removed; a Pending or Running job is kept
  whatever its time stamps are.
\<close>

theorem cleanup_removes_exactly_expired:
  assumes "distinct (map fst (jobs s))"
  shows "jobs (snd (cleanup cutoff_iso s)) =
           filter (\<lambda>(job_id, job). \<not> (terminal (status job) \<and>
                     (\<exists>t. completed_at job = Some t \<and> t \<noteq> [] \<and> t < cutoff_iso))) (jobs s) \<and>
         fst (cleanup cutoff_iso s) =
           length (filter (\<lambda>(job_id, job). terminal (status job) \<and>
                     (\<exists>t. completed_at job = Some t \<and> t \<noteq> [] \<and> t < cutoff_iso)) (jobs s)) \<and>
         (\<forall>(job_id, job) \<in> set (jobs s).
            status job = PENDING \<or> status job = RUNNING \<longrightarrow>
            (job_id, job) \<in> set (jobs (snd (cleanup cutoff_iso s))))"
proof -
  have e: "\<And>x. expired cutoff_iso (snd x) =
             (case x of (job_id, job) \<Rightarrow> terminal (status job) \<and>
                     (\<exists>t. completed_at job = Some t \<and> t \<noteq> [] \<and> t < cutoff_iso))"
    by (auto simp: expired_def terminal_def split: option.splits prod.splits)
  have l: "cleanup_loop cutoff_iso (jobs s) (jobs s, 0) =
           (filter (\<lambda>x. \<not> expired cutoff_iso (snd x)) (jobs s),
            length (filter (\<lambda>x. expired cutoff_iso (snd x)) (jobs s)))"
    using assms by (rule cleanup_loop_self)
  have j: "jobs (snd (cleanup cutoff_iso s)) = filter (\<lambda>x. \<not> expired cutoff_iso (snd x)) (jobs s)"
    by (simp add: cleanup_def l save_jobs_def)
  have n: "fst (cleanup cutoff_iso s) = length (filter (\<lambda>x. expired cutoff_iso (snd x)) (jobs s))"
    by (simp add: cleanup_def l)
  have k: "\<forall>(job_id, job) \<in> set (jobs s).
            status job = PENDING \<or> status job = RUNNING \<longrightarrow>
            (job_id, job) \<in> set (jobs (snd (cleanup cutoff_iso s)))"
    unfolding j by (auto simp: expired_def)
  have j': "jobs (snd (cleanup cutoff_iso s)) =
           filter (\<lambda>(job_id, job). \<not> (terminal (status job) \<and>
                     (\<exists>t. completed_at job = Some t \<and> t \<noteq> [] \<and> t < cutoff_iso))) (jobs s)"
    unfolding j by (rule filter_cong) (auto simp: e)
  have n': "fst (cleanup cutoff_iso s) =
           length (filter (\<lambda>(job_id, job). terminal (status job) \<and>
                     (\<exists>t. completed_at job = Some t \<and> t \<noteq> [] \<and> t < cutoff_iso)) (jobs s))"
    unfolding n by (rule arg_cong [where f = length], rule filter_cong) (auto simp: e)
  from j' n' k show ?thesis by blast
qed

text \<open>
  In the example table only the old finished job goes; the recent failed job and the old
  pending job stay.
\<close>

theorem cleanup_removes_exactly_expired_witness:
  "distinct (map fst (jobs ex_table)) \<and>
   fst (cleanup ''2026-01-16T10:00:00+00:00'' ex_table) = 1 \<and>
   map fst (jobs (snd (cleanup ''2026-01-16T10:00:00+00:00'' ex_table))) = [''job-b'', ''job-c'']"
  using cleanup_removes_exactly_expired [of ex_table "''2026-01-16T10:00:00+00:00''"]
  by (simp add: ex_simps terminal_def)

section \<open>Loading the persisted log\<close>

lemma loaded_map_Record: "loaded (map Record js) = js"
  by (induction js) auto

lemma load_records_other:
  "k \<notin> id_job ` set (loaded rs) \<Longrightarrow> map_of (jobs (load_records rs s)) k = map_of (jobs s) k"
  by (induction rs s rule: load_records.induct) (auto simp: update_conv')

lemma load_records_queue:
  "queue (load_records rs s) =
     queue s @ map id_job (filter (\<lambda>j. status j = PENDING \<or> status j = RUNNING) (loaded rs))"
  by (induction rs s rule: load_records.induct) auto

lemma load_records_handlers: "handlers (load_records rs s) = handlers s"
  by (induction rs s rule: load_records.induct) auto

lemma load_records_job:
  "distinct (map id_job (loaded rs)) \<Longrightarrow> job \<in> set (loaded rs) \<Longrightarrow>
   map_of (jobs (load_records rs s)) (id_job job) =
     Some (if status job = PENDING \<or> status job = RUNNING
           then job\<lparr>status := PENDING, progress := Finite 0\<rparr> else job)"
proof (induction rs s rule: load_records.induct)
  case (1 s)
  then show ?case by simp
next
  case (2 rest s)
  then show ?case by simp
next
  case (3 j rest s)
  show ?case
  proof (cases "job = j")
    case True
    from "3.prems" have "id_job j \<notin> id_job ` set (loaded rest)" by simp
    then show ?thesis
      using True by (simp add: load_records_other update_conv')
  next
    case False
    with "3.prems" have "distinct (map id_job (loaded rest))" "job \<in> set (loaded rest)" by auto
    then show ?thesis
      using "3.IH" by (cases "status j = PENDING \<or> status j = RUNNING") simp_all
  qed
qed

text \<open>
  C4. Construction on a persisted log (its records carry distinct identifiers, as every
  log written by \<^verbatim>\<open>_save_jobs\<close> does): every record the loader gets through whose
  status is Pending or Running is in the table as Pending with progress 0, otherwise
  unchanged, and its identifier is in the queue; every record with a terminal status is
  in the table as persisted and its identifier is not in the queue.
\<close>

theorem restart_requeues_unfinished:
  assumes "distinct (map id_job (loaded records))"
  shows "\<forall>job \<in> set (loaded records).
           (status job = PENDING \<or> status job = RUNNING \<longrightarrow>
              get (id_job job) (init_queue (Some records))
                = Some (job\<lparr>status := PENDING, progress := Finite 0\<rparr>)
              \<and> id_job job \<in> set (queue (init_queue (Some records)))) \<and>
           (terminal (status job) \<longrightarrow>
              get (id_job job) (init_queue (Some records)) = Some job
              \<and> id_job job \<notin> set (queue (init_queue (Some records))))"
proof
  fix job assume job: "job \<in> set (loaded records)"
  let ?s0 = "\<lparr>jobs = [], handlers = [], queue = [], jobs_file = Some records\<rparr>"
  have i: "init_queue (Some records) = load_records records ?s0"
    by (simp add: init_queue_def load_jobs_def)
  have g: "get (id_job job) (init_queue (Some records)) =
             Some (if status job = PENDING \<or> status job = RUNNING
                   then job\<lparr>status := PENDING, progress := Finite 0\<rparr> else job)"
    unfolding i get_def using assms job by (rule load_records_job)
  have q: "set (queue (init_queue (Some records))) =
             id_job ` {j \<in> set (loaded records). status j = PENDING \<or> status j = RUNNING}"
    unfolding i by (auto simp: load_records_queue)
  have inj: "\<And>j. j \<in> set (loaded records) \<Longrightarrow> id_job j = id_job job \<Longrightarrow> j = job"
    using assms job by (meson distinct_map inj_onD)
  have t: "terminal (status job) \<Longrightarrow> id_job job \<notin> set (queue (init_queue (Some records)))"
    unfolding q using inj by (auto simp: terminal_def)
  show "(status job = PENDING \<or> status job = RUNNING \<longrightarrow>
              get (id_job job) (init_queue (Some records))
                = Some (job\<lparr>status := PENDING, progress := Finite 0\<rparr>)
              \<and> id_job job \<in> set (queue (init_queue (Some records)))) \<and>
           (terminal (status job) \<longrightarrow>
              get (id_job job) (init_queue (Some records)) = Some job
              \<and> id_job job \<notin> set (queue (init_queue (Some records))))"
    using g q t job by (auto simp: terminal_def)
qed

text \<open>
  A log with a running, a pending and a completed job, then a record that does not
  decode: the first two are pending again and queued, the third is as persisted.
\<close>

theorem restart_requeues_unfinished_witness:
  "distinct (map id_job (loaded ex_log)) \<and>
   map (\<lambda>(k, j). (k, status j, progress j)) (jobs (init_queue (Some ex_log))) =
     [(''job-b'', PENDING, Finite 0), (''job-c'', PENDING, Finite 0),
      (''job-a'', COMPLETED, Finite 1)] \<and>
   queue (init_queue (Some ex_log)) = [''job-b'', ''job-c'']"
  using restart_requeues_unfinished [of ex_log]
  by (simp add: ex_log_def ex_job_def init_queue_def load_jobs_def)

text \<open>The log that \<^verbatim>\<open>_save_jobs\<close> writes carries distinct identifiers.\<close>

lemma distinct_map_take_sorted_reverse:
  assumes "distinct (map f xs)"
  shows "distinct (map f (take n (sorted_reverse xs)))"
proof -
  from assms have d: "distinct xs" and i: "inj_on f (set xs)"
    by (simp_all add: distinct_map)
  have "set (take n (sorted_reverse xs)) \<subseteq> set xs"
    using set_take_subset [of n "sorted_reverse xs"] by (simp add: sorted_reverse_def)
  with i have "inj_on f (set (take n (sorted_reverse xs)))"
    by (rule inj_on_subset)
  moreover from d have "distinct (take n (sorted_reverse xs))"
    by (simp add: sorted_reverse_def)
  ultimately show ?thesis by (simp add: distinct_map)
qed

lemma saved_log_distinct:
  assumes "distinct (map fst (jobs s))" and "\<forall>(k, j) \<in> set (jobs s). id_job j = k"
    and "jobs_file (save_jobs s) = Some rs"
  shows "distinct (map id_job (loaded rs))"
proof -
  have m: "map id_job (map snd (jobs s)) = map fst (jobs s)"
    using assms(2) by (induction "jobs s" arbitrary: s) auto
  have dm: "distinct (map id_job (map snd (jobs s)))"
    by (subst m) (rule assms(1))
  have "loaded rs = take 100 (sorted_reverse (map snd (jobs s)))"
    using assms(3) by (auto simp: save_jobs_def loaded_map_Record)
  then show ?thesis
    using dm by (simp only: distinct_map_take_sorted_reverse)
qed

text \<open>The restart of the spec's scenario: job-1 running, job-2 pending when the process ends.\<close>

lemma restart_scenario:
  "map (\<lambda>(k, j). (k, status j, progress j)) (jobs ex_crashed) =
     [(''job-1'', RUNNING, Finite (1/2)), (''job-2'', PENDING, Finite 0)] \<and>
   map (\<lambda>(k, j). (k, status j, progress j)) (jobs (apply_event Restart ex_crashed)) =
     [(''job-2'', PENDING, Finite 0), (''job-1'', PENDING, Finite 0)] \<and>
   queue (apply_event Restart ex_crashed) = [''job-2'', ''job-1''] \<and>
   handlers (apply_event Restart ex_crashed) = []"
  by (simp add: ex_crashed_def ex_simps)

section \<open>Progress\<close>

text \<open>The clamp of the progress callback maps every float other than NaN into the interval.\<close>

lemma clamp_within_unit: "p \<noteq> NaN \<Longrightarrow> within_unit (py_min (py_max p (Finite 0)) (Finite 1))"
  by (cases p) (auto simp: py_min_def py_max_def)

lemma clamp_NaN: "py_min (py_max NaN (Finite 0)) (Finite 1) = NaN"
  by (simp add: py_min_def py_max_def)

text \<open>The bound on the table and on the log, operation by operation.\<close>

lemma in_range_lookup:
  "progress_in_range s \<Longrightarrow> map_of (jobs s) k = Some job \<Longrightarrow> within_unit (progress job)"
  by (auto simp: progress_in_range_def dest!: map_of_SomeD)

lemma in_range_update:
  assumes "progress_in_range s" and "within_unit (progress job)"
  shows "progress_in_range (s\<lparr>jobs := AList.update k job (jobs s)\<rparr>)"
  using assms set_update_subset [of k job "jobs s"]
  by (auto simp: progress_in_range_def)

lemma in_range_subset:
  "progress_in_range s \<Longrightarrow> set js \<subseteq> set (jobs s) \<Longrightarrow> progress_in_range (s\<lparr>jobs := js\<rparr>)"
  by (auto simp: progress_in_range_def)

lemma in_range_save [simp]: "progress_in_range (save_jobs s) = progress_in_range s"
  by (simp add: progress_in_range_def save_jobs_def)

lemma in_range_fields [simp]:
  "progress_in_range (s\<lparr>handlers := h\<rparr>) = progress_in_range s"
  "progress_in_range (s\<lparr>queue := q\<rparr>) = progress_in_range s"
  "progress_in_range (s\<lparr>jobs_file := f\<rparr>) = progress_in_range s"
  by (simp_all add: progress_in_range_def)

lemma log_fields [simp]:
  "log_in_range (s\<lparr>handlers := h\<rparr>) = log_in_range s"
  "log_in_range (s\<lparr>queue := q\<rparr>) = log_in_range s"
  "log_in_range (s\<lparr>jobs := js\<rparr>) = log_in_range s"
  by (simp_all add: log_in_range_def)

lemma log_save: "progress_in_range s \<Longrightarrow> log_in_range (save_jobs s)"
proof -
  assume a: "progress_in_range s"
  have "set (take 100 (sorted_reverse (map snd (jobs s)))) \<subseteq> snd ` set (jobs s)"
    using set_take_subset [of 100 "sorted_reverse (map snd (jobs s))"]
    by (simp add: sorted_reverse_def)
  with a show ?thesis
    by (fastforce simp: log_in_range_def save_jobs_def loaded_map_Record progress_in_range_def)
qed

lemma qir_save: "progress_in_range s \<Longrightarrow> queue_in_range (save_jobs s)"
  by (simp add: queue_in_range_def log_save)

lemma store_in_range:
  assumes "queue_in_range s" and "within_unit (progress job)"
  shows "queue_in_range (save_jobs (s\<lparr>jobs := AList.update k job (jobs s)\<rparr>))"
  using assms by (intro qir_save in_range_update) (simp_all add: queue_in_range_def)

lemma store_handlers_in_range:
  assumes "queue_in_range s" and "within_unit (progress job)"
  shows "queue_in_range (save_jobs (s\<lparr>jobs := AList.update k job (jobs s), handlers := h\<rparr>))"
proof -
  have "progress_in_range (s\<lparr>jobs := AList.update k job (jobs s)\<rparr>)"
    using assms by (intro in_range_update) (simp_all add: queue_in_range_def)
  then have "progress_in_range (s\<lparr>jobs := AList.update k job (jobs s), handlers := h\<rparr>)"
    by (simp add: progress_in_range_def)
  then show ?thesis by (rule qir_save)
qed

lemma qir_fields [simp]:
  "queue_in_range (s\<lparr>handlers := h\<rparr>) = queue_in_range s"
  "queue_in_range (s\<lparr>queue := q\<rparr>) = queue_in_range s"
  by (simp_all add: queue_in_range_def)

lemma save_handlers: "save_jobs (s\<lparr>handlers := h\<rparr>) = (save_jobs s)\<lparr>handlers := h\<rparr>"
  by (simp add: save_jobs_def)

lemma qir_lookup:
  "queue_in_range s \<Longrightarrow> map_of (jobs s) k = Some job \<Longrightarrow> within_unit (progress job)"
  by (auto simp: queue_in_range_def dest: in_range_lookup)

lemma submit_in_range: "queue_in_range s \<Longrightarrow> queue_in_range (snd (submit i now jt ps h sid s))"
  by (simp add: submit_def Let_def store_handlers_in_range)

lemma cancel_in_range: "queue_in_range s \<Longrightarrow> queue_in_range (snd (cancel now i s))"
proof (cases "map_of (jobs s) i")
  case None
  then show "queue_in_range s \<Longrightarrow> ?thesis" by (simp add: cancel_def)
next
  case (Some job)
  assume a: "queue_in_range s"
  with Some have "within_unit (progress job)" by (rule qir_lookup [rotated])
  with a Some show ?thesis by (simp add: cancel_def store_handlers_in_range)
qed

lemma claim_in_range: "queue_in_range s \<Longrightarrow> queue_in_range (snd (process_job_claim now i s))"
proof (cases "map_of (jobs s) i")
  case None
  then show "queue_in_range s \<Longrightarrow> ?thesis" by (simp add: process_job_claim_def)
next
  case (Some job)
  assume a: "queue_in_range s"
  with Some have "within_unit (progress job)" by (rule qir_lookup [rotated])
  with a Some show ?thesis
    by (cases "map_of (handlers s) i") (simp_all add: process_job_claim_def store_in_range)
qed

lemma progress_callback_in_range:
  "queue_in_range s \<Longrightarrow> p \<noteq> NaN \<Longrightarrow> queue_in_range (progress_callback i p m s)"
  unfolding progress_callback_def queue_in_range_def
  by (auto simp: in_range_update clamp_within_unit split: option.splits)

lemma progress_callback_handlers [simp]:
  "handlers (progress_callback i p m s) = handlers s"
  by (simp add: progress_callback_def split: option.splits)

lemma finish_in_range: "queue_in_range s \<Longrightarrow> queue_in_range (process_job_finish now i out s)"
proof (cases "map_of (jobs s) i")
  case None
  then show "queue_in_range s \<Longrightarrow> ?thesis"
    by (simp add: process_job_finish_def Let_def log_save queue_in_range_def)
next
  case (Some job)
  assume a: "queue_in_range s"
  with Some have "within_unit (progress job)" by (rule qir_lookup [rotated])
  with a Some show ?thesis
    by (cases out) (simp_all add: process_job_finish_def Let_def store_in_range)
qed

lemma reports_in_range:
  "queue_in_range s \<Longrightarrow> NaN \<notin> fst ` set reports \<Longrightarrow>
   queue_in_range (fold (\<lambda>(p, m). progress_callback i p m) reports s)"
  by (induction reports arbitrary: s) (auto simp: progress_callback_in_range)

lemma reports_handlers [simp]:
  "handlers (fold (\<lambda>(p, m). progress_callback i p m) reports s) = handlers s"
  by (induction reports arbitrary: s) auto

lemma claim_handler:
  "process_job_claim t i s = (Some (job, h), s1) \<Longrightarrow> map_of (handlers s) i = Some h"
  by (auto simp: process_job_claim_def split: option.splits)

lemma handlers_ok_lookup: "handlers_ok s \<Longrightarrow> map_of (handlers s) i = Some h \<Longrightarrow> handler_ok h"
  by (auto simp: handlers_ok_def dest!: map_of_SomeD)

lemma process_job_in_range:
  assumes "queue_in_range s" and "handlers_ok s"
  shows "queue_in_range (process_job t1 t2 i s)"
proof -
  obtain r s1 where c: "process_job_claim t1 i s = (r, s1)" by (cases "process_job_claim t1 i s")
  from assms(1) have s1: "queue_in_range s1" using claim_in_range [of s t1 i] by (simp add: c)
  show ?thesis
  proof (cases r)
    case None
    with c s1 show ?thesis by (simp add: process_job_def)
  next
    case (Some jh)
    obtain job h where jh: "jh = (job, h)" by (cases jh)
    obtain reports out where h: "h (params job) = (reports, out)" by (cases "h (params job)")
    from c Some jh have "map_of (handlers s) i = Some h" by (simp add: claim_handler)
    with assms(2) have "handler_ok h" by (rule handlers_ok_lookup)
    then have "NaN \<notin> fst ` set (fst (h (params job)))" by (simp add: handler_ok_def)
    with h have "NaN \<notin> fst ` set reports" by simp
    with s1 show ?thesis
      by (simp add: process_job_def c Some jh h finish_in_range reports_in_range)
  qed
qed

lemma worker_step_in_range:
  assumes "queue_in_range s" and "handlers_ok s"
  shows "queue_in_range (worker_step t1 t2 s)"
proof (cases "queue s")
  case Nil
  with assms show ?thesis by (simp add: worker_step_def)
next
  case (Cons i rest)
  from assms have "queue_in_range (s\<lparr>queue := rest\<rparr>)" "handlers_ok (s\<lparr>queue := rest\<rparr>)"
    by (simp_all add: queue_in_range_def handlers_ok_def)
  then show ?thesis by (simp add: worker_step_def Cons process_job_in_range)
qed

lemma cleanup_in_range: "queue_in_range s \<Longrightarrow> queue_in_range (snd (cleanup c s))"
proof -
  assume a: "queue_in_range s"
  let ?js = "filter (\<lambda>p. fst p \<notin> fst ` {x \<in> set (jobs s). expired c (snd x)}) (jobs s)"
  have "progress_in_range (s\<lparr>jobs := ?js\<rparr>)"
    using a by (intro in_range_subset) (auto simp: queue_in_range_def)
  with a show ?thesis
    by (simp add: cleanup_def cleanup_loop_filter queue_in_range_def log_save)
qed

lemma load_records_in_range:
  "progress_in_range s \<Longrightarrow> \<forall>job \<in> set (loaded rs). within_unit (progress job)
     \<Longrightarrow> progress_in_range (load_records rs s)"
  by (induction rs s rule: load_records.induct) (auto simp: in_range_update)

lemma load_records_file: "jobs_file (load_records rs s) = jobs_file s"
  by (induction rs s rule: load_records.induct) auto

lemma restart_in_range: "queue_in_range s \<Longrightarrow> queue_in_range (init_queue (jobs_file s))"
proof (cases "jobs_file s")
  case None
  then show ?thesis
    by (simp add: init_queue_def load_jobs_def queue_in_range_def progress_in_range_def log_in_range_def)
next
  case (Some rs)
  assume "queue_in_range s"
  with Some have r: "\<forall>job \<in> set (loaded rs). within_unit (progress job)"
    by (simp add: queue_in_range_def log_in_range_def)
  let ?s0 = "\<lparr>jobs = [], handlers = [], queue = [], jobs_file = Some rs\<rparr>"
  have "progress_in_range ?s0" by (simp add: progress_in_range_def)
  then have "progress_in_range (load_records rs ?s0)" using r by (rule load_records_in_range)
  moreover have "log_in_range (load_records rs ?s0)"
    using r by (simp add: log_in_range_def load_records_file)
  ultimately show ?thesis
    by (simp add: Some init_queue_def load_jobs_def queue_in_range_def)
qed

text \<open>The handlers of the table stay free of NaN reports.\<close>

lemma handlers_ok_subset:
  "handlers_ok s \<Longrightarrow> set (handlers s') \<subseteq> set (handlers s) \<Longrightarrow> handlers_ok s'"
  by (auto simp: handlers_ok_def)

lemma process_job_handlers: "set (handlers (process_job t1 t2 i s)) \<subseteq> set (handlers s)"
proof -
  obtain r s1 where c: "process_job_claim t1 i s = (r, s1)" by (cases "process_job_claim t1 i s")
  then have h1: "handlers s1 = handlers s"
    by (auto simp: process_job_claim_def save_jobs_def split: option.splits)
  show ?thesis
  proof (cases r)
    case None
    with c h1 show ?thesis by (simp add: process_job_def)
  next
    case (Some jh)
    obtain job h where jh: "jh = (job, h)" by (cases jh)
    obtain reports out where h: "h (params job) = (reports, out)" by (cases "h (params job)")
    have "set (handlers (process_job_finish t2 i out s')) \<subseteq> set (handlers s')" for s'
      using set_delete_subset [of i "handlers s'"]
      by (auto simp: process_job_finish_def Let_def save_jobs_def split: option.splits outcome.splits)
    from this [of "fold (\<lambda>(p, m). progress_callback i p m) reports s1"] h1
    show ?thesis by (simp add: process_job_def c Some jh h)
  qed
qed

lemma apply_event_handlers_ok:
  assumes "handlers_ok s" and "event_ok e"
  shows "handlers_ok (apply_event e s)"
proof (cases e)
  case (Submit i t jt ps h sid)
  with assms show ?thesis
    using set_update_subset [of i h "handlers s"]
    by (auto simp: submit_def Let_def save_jobs_def handlers_ok_def)
next
  case (Cancel t i)
  with assms(1) show ?thesis
    using set_delete_subset [of i "handlers s"]
    by (auto simp: cancel_def save_jobs_def handlers_ok_def split: option.splits)
next
  case (Claim t i)
  with assms(1) show ?thesis
    by (auto simp: process_job_claim_def save_jobs_def handlers_ok_def split: option.splits)
next
  case (Progress i p m)
  with assms(1) show ?thesis by (simp add: handlers_ok_def)
next
  case (Finish t i out)
  with assms(1) show ?thesis
    using set_delete_subset [of i "handlers s"]
    by (auto simp: process_job_finish_def Let_def save_jobs_def handlers_ok_def
             split: option.splits outcome.splits)
next
  case (WorkerStep t1 t2)
  show ?thesis
  proof (cases "queue s")
    case Nil
    with assms(1) WorkerStep show ?thesis by (simp add: worker_step_def)
  next
    case (Cons i rest)
    have "set (handlers (process_job t1 t2 i (s\<lparr>queue := rest\<rparr>))) \<subseteq> set (handlers s)"
      using process_job_handlers [of t1 t2 i "s\<lparr>queue := rest\<rparr>"] by simp
    with assms(1) have "handlers_ok (process_job t1 t2 i (s\<lparr>queue := rest\<rparr>))"
      by (rule handlers_ok_subset)
    with WorkerStep Cons show ?thesis by (simp add: worker_step_def)
  qed
next
  case (Cleanup c)
  with assms(1) show ?thesis
    by (auto simp: cleanup_def save_jobs_def handlers_ok_def split: prod.splits)
next
  case Restart
  then show ?thesis
    by (simp add: init_queue_def load_jobs_def load_records_handlers handlers_ok_def
             split: option.splits)
qed

text \<open>
  As long as no progress report is NaN, every job of the table and of the log has its
  progress in the interval, whatever the queue does.
\<close>

lemma apply_event_in_range:
  "queue_in_range s \<Longrightarrow> handlers_ok s \<Longrightarrow> event_ok e \<Longrightarrow> queue_in_range (apply_event e s)"
  by (cases e)
     (simp_all add: submit_in_range cancel_in_range claim_in_range progress_callback_in_range
        finish_in_range worker_step_in_range cleanup_in_range restart_in_range)

lemma run_in_range:
  "queue_in_range s \<Longrightarrow> handlers_ok s \<Longrightarrow> list_all event_ok events \<Longrightarrow>
   queue_in_range (fold apply_event events s)"
  by (induction events arbitrary: s)
     (simp_all add: apply_event_in_range apply_event_handlers_ok)

lemma init_in_range: "queue_in_range (init_queue None) \<and> handlers_ok (init_queue None)"
  by (simp add: init_queue_def load_jobs_def queue_in_range_def progress_in_range_def
        log_in_range_def handlers_ok_def)

lemma progress_in_range_without_NaN:
  "list_all event_ok events \<Longrightarrow> progress_in_range (fold apply_event events (init_queue None))"
  using run_in_range [of "init_queue None" events] init_in_range
  by (simp add: queue_in_range_def)

text \<open>
  C10. The stored progress is meant to stay between 0.0 and 1.0 for every value a handler
  reports. It does not for NaN: every comparison with NaN is false, so
  \<^verbatim>\<open>max(nan, 0.0)\<close> and then \<^verbatim>\<open>min(nan, 1.0)\<close> are NaN, and the callback stores NaN.
  A handler that reports NaN and then raises leaves a failed job whose progress is NaN;
  the value is written to the log and is there again after a restart.
\<close>

theorem nan_progress_is_stored:
  "py_min (py_max NaN (Finite 0)) (Finite 1) = NaN \<and>
   \<not> within_unit NaN \<and>
   map_option progress (get ''job-1'' (progress_callback ''job-1'' NaN ''frame 0 of 0'' ex_queue))
     = Some NaN \<and>
   map_option status (get ''job-1'' ex_nan_queue) = Some FAILED \<and>
   map_option progress (get ''job-1'' ex_nan_queue) = Some NaN \<and>
   map_option progress (get ''job-1'' (apply_event Restart ex_nan_queue)) = Some NaN"
  by (simp add: ex_simps)

section \<open>Properties of the session manager\<close>

lemmas ex_session_simps = ex_manager_def init_sessions_def load_sessions_def
  create_default_session_def save_sessions_def default_session_def create_def switch_def
  delete_def reset_def or_current_def get_current_def get_session_def list_sessions_def Let_def

lemma map_snd_delete:
  "\<forall>(k, x) \<in> set al. f x = k \<Longrightarrow>
     map snd (AList.delete k' al) = filter (\<lambda>x. f x \<noteq> k') (map snd al)"
  by (induction al) auto

lemma find_delete_other:
  assumes "distinct (map fst al)" and "map_of al k = Some v" and "\<not> P v"
  shows "find P (map snd (AList.delete k al)) = find P (map snd al)"
  using assms
proof (induction al)
  case Nil
  then show ?case by simp
next
  case (Cons a al)
  obtain k' v' where a: "a = (k', v')" by (cases a)
  show ?case
  proof (cases "k' = k")
    case True
    with Cons.prems a have "v' = v" "k \<notin> fst ` set al" by auto
    then have "AList.delete k al = al" by (simp add: delete_id image_iff)
    with True a \<open>v' = v\<close> Cons.prems(3) show ?thesis by simp
  next
    case False
    with Cons a show ?thesis by auto
  qed
qed

lemma find_Some_default:
  "find P xs = Some d \<Longrightarrow> d \<in> set xs \<and> P d"
  by (induction xs) (auto split: if_splits)

text \<open>
  C5. \<^verbatim>\<open>delete\<close> of a session flagged as default raises and leaves the manager (index,
  files on disk, current pointer, persisted index) as it is. \<^verbatim>\<open>delete\<close> of a known
  session that is not flagged returns true; \<^verbatim>\<open>list()\<close> is then the former list without
  the sessions of that identifier, the session cannot be looked up, its backing file is
  gone from the disk, and, if it was current, the current pointer is the default session's
  identifier and \<^verbatim>\<open>get_current()\<close> is the default session; if it was not current the
  pointer is as before. The index is a dictionary that holds each session under its own
  non-empty identifier, and holds a default session.
\<close>

theorem delete_default_refused_else_removed:
  "(get_session sid s = Some session \<and> is_default session \<longrightarrow>
      delete sid s = (Inl (ValueError ''Cannot delete default session''), s)) \<and>
   (index_ok s \<and> default_session s = Some d \<and>
        get_session sid s = Some session \<and> \<not> is_default session \<longrightarrow>
      fst (delete sid s) = Inr True \<and>
      list_sessions (snd (delete sid s)) = filter (\<lambda>x. id_session x \<noteq> sid) (list_sessions s) \<and>
      get_session sid (snd (delete sid s)) = None \<and>
      files (snd (delete sid s)) = files s - {blend_file session} \<and>
      (current_session_id s = Some sid \<longrightarrow>
         is_default d \<and> current_session_id (snd (delete sid s)) = Some (id_session d) \<and>
         get_current (snd (delete sid s)) = Some d) \<and>
      (current_session_id s \<noteq> Some sid \<longrightarrow>
         current_session_id (snd (delete sid s)) = current_session_id s))"
proof (intro conjI impI)
  assume "get_session sid s = Some session \<and> is_default session"
  then show "delete sid s = (Inl (ValueError ''Cannot delete default session''), s)"
    by (simp add: delete_def get_session_def)
next
  assume a: "index_ok s \<and> default_session s = Some d \<and>
        get_session sid s = Some session \<and> \<not> is_default session"
  then have ok: "distinct (map fst (sessions s))"
    and key: "\<forall>(k, x) \<in> set (sessions s). id_session x = k"
    and ne: "\<forall>(k, x) \<in> set (sessions s). k \<noteq> []"
    and d: "default_session s = Some d"
    and look: "map_of (sessions s) sid = Some session"
    and nd: "\<not> is_default session"
    by (auto simp: index_ok_def get_session_def)
  let ?al = "AList.delete sid (sessions s)"
  have dflt: "find is_default (map snd ?al) = Some d"
    using find_delete_other [where P = is_default, OF ok look nd] d by (simp add: default_session_def)
  from d have dd: "d \<in> snd ` set (sessions s)" "is_default d"
    using find_Some_default [of is_default "map snd (sessions s)" d]
    by (auto simp: default_session_def)
  then obtain k where k: "(k, d) \<in> set (sessions s)" by auto
  with key ne have kid: "id_session d = k" "k \<noteq> []" by auto
  from ok k have mk: "map_of (sessions s) k = Some d" by (rule map_of_is_SomeI)
  with look nd dd(2) have ksid: "k \<noteq> sid" by auto
  have "map_of ?al k = Some d"
    using mk ksid by (simp add: delete_conv')
  with kid have cur: "map_of ?al (id_session d) = Some d" "id_session d \<noteq> []" by simp_all
  show "fst (delete sid s) = Inr True"
    using look nd by (simp add: delete_def Let_def)
  show "list_sessions (snd (delete sid s)) = filter (\<lambda>x. id_session x \<noteq> sid) (list_sessions s)"
    using look nd key
    by (simp add: delete_def Let_def list_sessions_def save_sessions_def default_session_def
          map_snd_delete split: option.splits)
  show "get_session sid (snd (delete sid s)) = None"
    using look nd
    by (simp add: delete_def Let_def get_session_def save_sessions_def default_session_def
          delete_conv' split: option.splits)
  show "files (snd (delete sid s)) = files s - {blend_file session}"
    using look nd
    by (simp add: delete_def Let_def save_sessions_def default_session_def split: option.splits)
  {
    assume c: "current_session_id s = Some sid"
    show "is_default d" by (rule dd(2))
    show "current_session_id (snd (delete sid s)) = Some (id_session d)"
      using look nd c dflt
      by (simp add: delete_def Let_def save_sessions_def default_session_def)
    show "get_current (snd (delete sid s)) = Some d"
      using look nd c dflt cur
      by (simp add: delete_def Let_def save_sessions_def default_session_def get_current_def)
  }
  {
    assume "current_session_id s \<noteq> Some sid"
    then show "current_session_id (snd (delete sid s)) = current_session_id s"
      using look nd by (simp add: delete_def Let_def save_sessions_def)
  }
qed


lemma ex_manager_value:
  "sessions ex_manager = [(''default'', ex_default), (''a1b2c3d4'', ex_work)] \<and>
   current_session_id ex_manager = Some ''a1b2c3d4'' \<and>
   files ex_manager = {''/home/u/.fgp/services/blender/sessions/a1b2c3d4.blend''}"
  by (simp add: ex_session_simps ex_default_def ex_work_def)

lemma ex_manager_ok:
  "index_ok ex_manager \<and> default_session ex_manager = Some ex_default \<and>
   get_session ''default'' ex_manager = Some ex_default \<and> is_default ex_default \<and>
   get_session ''a1b2c3d4'' ex_manager = Some ex_work \<and> \<not> is_default ex_work"
  by (simp add: ex_manager_value index_ok_def default_session_def get_session_def)
     (simp add: ex_default_def ex_work_def)

text \<open>
  In the example manager the default session is refused; the session that is current is
  deleted with its file, and the default session is current afterwards.
\<close>

theorem delete_default_refused_else_removed_witness:
  "index_ok ex_manager \<and>
   get_session ''default'' ex_manager = Some ex_default \<and> is_default ex_default \<and>
   delete ''default'' ex_manager = (Inl (ValueError ''Cannot delete default session''), ex_manager) \<and>
   get_session ''a1b2c3d4'' ex_manager = Some ex_work \<and> \<not> is_default ex_work \<and>
   fst (delete ''a1b2c3d4'' ex_manager) = Inr True \<and>
   list_sessions (snd (delete ''a1b2c3d4'' ex_manager)) = [ex_default] \<and>
   files (snd (delete ''a1b2c3d4'' ex_manager)) = {} \<and>
   get_current (snd (delete ''a1b2c3d4'' ex_manager)) = Some ex_default"
proof -
  note ok = ex_manager_ok
  have a: "delete ''default'' ex_manager
             = (Inl (ValueError ''Cannot delete default session''), ex_manager)"
    using delete_default_refused_else_removed [of "''default''" ex_manager ex_default] ok
    by blast
  have b: "fst (delete ''a1b2c3d4'' ex_manager) = Inr True \<and>
      list_sessions (snd (delete ''a1b2c3d4'' ex_manager))
        = filter (\<lambda>x. id_session x \<noteq> ''a1b2c3d4'') (list_sessions ex_manager) \<and>
      files (snd (delete ''a1b2c3d4'' ex_manager)) = files ex_manager - {blend_file ex_work} \<and>
      (current_session_id ex_manager = Some ''a1b2c3d4'' \<longrightarrow>
         get_current (snd (delete ''a1b2c3d4'' ex_manager)) = Some ex_default)"
    using delete_default_refused_else_removed [of "''a1b2c3d4''" ex_manager ex_work ex_default] ok
    by blast
  have c: "filter (\<lambda>x. id_session x \<noteq> ''a1b2c3d4'') (list_sessions ex_manager) = [ex_default]"
    by (simp add: list_sessions_def ex_manager_value) (simp add: ex_default_def ex_work_def)
  have d: "files ex_manager - {blend_file ex_work} = {}"
    by (simp add: ex_manager_value) (simp add: ex_work_def)
  from ok a b c d show ?thesis by (simp add: ex_manager_value)
qed

text \<open>
  C7. \<^verbatim>\<open>reset\<close> of a known session returns and stores the session with only
  \<^verbatim>\<open>modified_at\<close> changed, to the time of the call: identifier, name, default flag,
  metadata, creation time and file path are as before. Its backing file does not exist
  afterwards, so the next access starts from an empty state. The other sessions and the
  current pointer are as before. With the argument omitted the call is the call on the
  current session.
\<close>

theorem reset_keeps_identity:
  "(sid \<noteq> [] \<and> get_session sid s = Some session \<longrightarrow>
      fst (reset now (Some sid) s) = Inr (session\<lparr>modified_at := now\<rparr>) \<and>
      get_session sid (snd (reset now (Some sid) s)) = Some (session\<lparr>modified_at := now\<rparr>) \<and>
      blend_file session \<notin> files (snd (reset now (Some sid) s)) \<and>
      files (snd (reset now (Some sid) s)) = files s - {blend_file session} \<and>
      (\<forall>k. k \<noteq> sid \<longrightarrow>
         get_session k (snd (reset now (Some sid) s)) = get_session k s) \<and>
      current_session_id (snd (reset now (Some sid) s)) = current_session_id s) \<and>
   (current_session_id s = Some cur \<longrightarrow> reset now None s = reset now (Some cur) s)"
  by (auto simp: reset_def or_current_def get_session_def save_sessions_def Let_def update_conv'
           split: option.splits)

text \<open>Reset without an argument in the example manager resets the current session.\<close>

theorem reset_keeps_identity_witness:
  "get_session ''a1b2c3d4'' ex_manager = Some ex_work \<and>
   current_session_id ex_manager = Some ''a1b2c3d4'' \<and>
   fst (reset ''2026-01-17T11:00:00+00:00'' None ex_manager)
     = Inr (ex_work\<lparr>modified_at := ''2026-01-17T11:00:00+00:00''\<rparr>) \<and>
   files (snd (reset ''2026-01-17T11:00:00+00:00'' None ex_manager)) = {}"
proof -
  have g: "''a1b2c3d4'' \<noteq> [] \<and> get_session ''a1b2c3d4'' ex_manager = Some ex_work"
    using ex_manager_ok by simp
  have c: "current_session_id ex_manager = Some ''a1b2c3d4''"
    by (simp add: ex_manager_value)
  have e: "reset ''2026-01-17T11:00:00+00:00'' None ex_manager
             = reset ''2026-01-17T11:00:00+00:00'' (Some ''a1b2c3d4'') ex_manager"
    using reset_keeps_identity [where sid = "''a1b2c3d4''" and s = ex_manager and session = ex_work
            and cur = "''a1b2c3d4''" and now = "''2026-01-17T11:00:00+00:00''"] c
    by blast
  have r: "fst (reset ''2026-01-17T11:00:00+00:00'' (Some ''a1b2c3d4'') ex_manager)
             = Inr (ex_work\<lparr>modified_at := ''2026-01-17T11:00:00+00:00''\<rparr>) \<and>
           files (snd (reset ''2026-01-17T11:00:00+00:00'' (Some ''a1b2c3d4'') ex_manager))
             = files ex_manager - {blend_file ex_work}"
    using reset_keeps_identity [where sid = "''a1b2c3d4''" and s = ex_manager and session = ex_work
            and cur = "''a1b2c3d4''" and now = "''2026-01-17T11:00:00+00:00''"] g
    by blast
  have d: "files ex_manager - {blend_file ex_work} = {}"
    by (simp add: ex_manager_value) (simp add: ex_work_def)
  from g c e r d show ?thesis by simp
qed

text \<open>
  C9. \<^verbatim>\<open>switch\<close> is not the only operation that moves the current pointer:
  \<^verbatim>\<open>delete\<close> of the current session points it at the default session.
\<close>

theorem delete_moves_current:
  "current_session_id ex_manager = Some ''a1b2c3d4'' \<and>
   fst (delete ''a1b2c3d4'' ex_manager) = Inr True \<and>
   current_session_id (run_op (Delete ''a1b2c3d4'') ex_manager) = Some ''default'' \<and>
   current_session_id (run_op (Delete ''a1b2c3d4'') ex_manager) \<noteq> current_session_id ex_manager"
  by (simp add: delete_def ex_manager_value default_session_def save_sessions_def Let_def)
     (simp add: ex_default_def ex_work_def)

text \<open>
  C9, as the code has it. \<^verbatim>\<open>switch\<close> raises for an unknown identifier and leaves
  the manager as it is; for a known one it returns the session and makes the identifier
  current. An operation of the manager that changes the current pointer is a switch to a
  known session or the delete of the current, non-default session.
\<close>

theorem current_moves_by_switch_or_delete:
  "(get_session sid s = None \<longrightarrow>
      switch sid s = (Inl (ValueError (''Session not found: '' @ sid)), s)) \<and>
   (get_session sid s = Some session \<longrightarrow>
      fst (switch sid s) = Inr session \<and> current_session_id (snd (switch sid s)) = Some sid) \<and>
   (current_session_id (run_op op s) \<noteq> current_session_id s \<longrightarrow>
      (\<exists>k. op = Switch k \<and> get_session k s \<noteq> None) \<or>
      (\<exists>k x. op = Delete k \<and> current_session_id s = Some k \<and> get_session k s = Some x \<and>
             \<not> is_default x))"
proof (intro conjI impI)
  assume "get_session sid s = None"
  then show "switch sid s = (Inl (ValueError (''Session not found: '' @ sid)), s)"
    by (simp add: switch_def get_session_def)
next
  assume "get_session sid s = Some session"
  then show "fst (switch sid s) = Inr session"
    and "current_session_id (snd (switch sid s)) = Some sid"
    by (simp_all add: switch_def get_session_def save_sessions_def)
next
  assume ch: "current_session_id (run_op op s) \<noteq> current_session_id s"
  show "(\<exists>k. op = Switch k \<and> get_session k s \<noteq> None) \<or>
      (\<exists>k x. op = Delete k \<and> current_session_id s = Some k \<and> get_session k s = Some x \<and>
             \<not> is_default x)"
  proof (cases op)
    case (Create i t n m)
    with ch show ?thesis by (simp add: create_def save_sessions_def Let_def)
  next
    case (Get k)
    with ch show ?thesis by simp
  next
    case GetCurrent
    with ch show ?thesis by simp
  next
    case (Switch k)
    with ch show ?thesis
      by (cases "map_of (sessions s) k") (simp_all add: switch_def get_session_def)
  next
    case ListSessions
    with ch show ?thesis by simp
  next
    case (Delete k)
    with ch show ?thesis
      by (auto simp: delete_def get_session_def save_sessions_def Let_def
               split: option.splits if_splits)
  next
    case (Reset t k)
    with ch show ?thesis
      by (auto simp: reset_def save_sessions_def Let_def split: option.splits if_splits)
  next
    case (UpdateModified t k)
    with ch show ?thesis
      by (auto simp: update_modified_def save_sessions_def split: option.splits if_splits)
  next
    case (GetBlendFile k)
    with ch show ?thesis by simp
  qed
qed

text \<open>
  In the example manager a switch to an unknown identifier raises, and the switch to the
  default session moves the pointer.
\<close>

theorem current_moves_by_switch_or_delete_witness:
  "get_session ''nope'' ex_manager = None \<and>
   switch ''nope'' ex_manager = (Inl (ValueError ''Session not found: nope''), ex_manager) \<and>
   get_session ''default'' ex_manager = Some ex_default \<and>
   current_session_id (snd (switch ''default'' ex_manager)) = Some ''default'' \<and>
   current_session_id (run_op (Switch ''default'') ex_manager) \<noteq> current_session_id ex_manager"
proof -
  have n: "get_session ''nope'' ex_manager = None"
    by (simp add: get_session_def ex_manager_value)
  have a: "switch ''nope'' ex_manager
             = (Inl (ValueError (''Session not found: '' @ ''nope'')), ex_manager)"
    using current_moves_by_switch_or_delete
            [where sid = "''nope''" and s = ex_manager and session = ex_default and op = GetCurrent] n
    by blast
  have g: "get_session ''default'' ex_manager = Some ex_default"
    using ex_manager_ok by simp
  have b: "current_session_id (snd (switch ''default'' ex_manager)) = Some ''default''"
    using current_moves_by_switch_or_delete
            [where sid = "''default''" and s = ex_manager and session = ex_default and op = GetCurrent] g
    by blast
  have c: "current_session_id (run_op (Switch ''default'') ex_manager)
             \<noteq> current_session_id ex_manager"
    using b by (simp add: ex_manager_value)
  have d: "(\<exists>k. Switch ''default'' = Switch k \<and> get_session k ex_manager \<noteq> None) \<or>
      (\<exists>k x. Switch ''default'' = Delete k \<and> current_session_id ex_manager = Some k \<and>
             get_session k ex_manager = Some x \<and> \<not> is_default x)"
    using current_moves_by_switch_or_delete
            [where sid = "''default''" and s = ex_manager and session = ex_default
               and op = "Switch ''default''"] c
    by blast
  from n a g b c show ?thesis by simp
qed

text \<open>
  The conditions on the index under which the default session takes over are set up by
  the constructor and kept by the operations.
\<close>

lemma has_default_iff:
  assumes "distinct (map fst (sessions s))"
  shows "default_session s \<noteq> None \<longleftrightarrow> (\<exists>k x. map_of (sessions s) k = Some x \<and> is_default x)"
proof
  assume "default_session s \<noteq> None"
  then obtain d where "find is_default (map snd (sessions s)) = Some d"
    by (auto simp: default_session_def)
  then have "d \<in> snd ` set (sessions s)" "is_default d"
    using find_Some_default [of is_default "map snd (sessions s)" d] by auto
  then obtain k where "(k, d) \<in> set (sessions s)" by auto
  with assms have "map_of (sessions s) k = Some d" by (simp add: map_of_is_SomeI)
  with \<open>is_default d\<close> show "\<exists>k x. map_of (sessions s) k = Some x \<and> is_default x" by blast
next
  assume "\<exists>k x. map_of (sessions s) k = Some x \<and> is_default x"
  then obtain k x where "map_of (sessions s) k = Some x" "is_default x" by blast
  then have "x \<in> set (map snd (sessions s))" "is_default x"
    by (auto dest!: map_of_SomeD intro: rev_image_eqI)
  then show "default_session s \<noteq> None"
    by (auto simp: default_session_def find_None_iff)
qed

lemma index_ok_update:
  assumes "index_ok s" and "id_session x = k" and "k \<noteq> []"
  shows "index_ok (s\<lparr>sessions := AList.update k x (sessions s)\<rparr>)"
  using assms set_update_subset [of k x "sessions s"]
  by (auto simp: index_ok_def distinct_update)

lemma index_ok_delete:
  "index_ok s \<Longrightarrow> index_ok (s\<lparr>sessions := AList.delete k (sessions s)\<rparr>)"
  using set_delete_subset [of k "sessions s"]
  by (auto simp: index_ok_def distinct_delete)

lemma index_ok_fields [simp]:
  "index_ok (s\<lparr>current_session_id := c\<rparr>) = index_ok s"
  "index_ok (s\<lparr>files := f\<rparr>) = index_ok s"
  "index_ok (s\<lparr>sessions_file := g\<rparr>) = index_ok s"
  "index_ok (save_sessions s) = index_ok s"
  by (simp_all add: index_ok_def save_sessions_def)

lemma index_ok_lookup:
  "index_ok s \<Longrightarrow> map_of (sessions s) k = Some x \<Longrightarrow> id_session x = k \<and> k \<noteq> []"
  by (auto simp: index_ok_def dest!: map_of_SomeD)

text \<open>Every operation keeps the index a dictionary of sessions under their own identifiers.\<close>

lemma run_op_index_ok:
  assumes "index_ok s" and "\<And>i t n m. op = Create i t n m \<Longrightarrow> i \<noteq> []"
  shows "index_ok (run_op op s)"
proof (cases op)
  case (Create i t n m)
  with assms show ?thesis by (simp add: create_def Let_def index_ok_update)
next
  case (Switch k)
  with assms show ?thesis by (simp add: switch_def split: option.splits)
next
  case (Delete k)
  have "index_ok (s\<lparr>files := f, sessions := AList.delete k (sessions s)\<rparr>)" for f
    using index_ok_delete [OF assms(1), of k] by (simp add: index_ok_def)
  with assms Delete show ?thesis
    by (simp add: delete_def Let_def split: option.splits)
next
  case (Reset t k)
  have "index_ok (s\<lparr>files := f, sessions := AList.update i (x\<lparr>modified_at := t\<rparr>) (sessions s)\<rparr>)"
    if "map_of (sessions s) i = Some x" for f i x
    using index_ok_update [OF assms(1), of "x\<lparr>modified_at := t\<rparr>" i] index_ok_lookup [OF assms(1) that]
    by (simp add: index_ok_def)
  with assms Reset show ?thesis
    by (simp add: reset_def Let_def split: option.splits)
next
  case (UpdateModified t k)
  have "index_ok (s\<lparr>sessions := AList.update i (x\<lparr>modified_at := t\<rparr>) (sessions s)\<rparr>)"
    if "map_of (sessions s) i = Some x" for i x
    using index_ok_update [OF assms(1), of "x\<lparr>modified_at := t\<rparr>" i] index_ok_lookup [OF assms(1) that]
    by simp
  with assms UpdateModified show ?thesis
    by (simp add: update_modified_def split: option.splits)
qed (use assms in simp_all)

text \<open>Every operation keeps a default session in the index.\<close>

lemma run_op_has_default:
  assumes "index_ok s" and "default_session s \<noteq> None"
    and "\<And>i t n m. op = Create i t n m \<Longrightarrow> i \<noteq> [] \<and> get_session i s = None"
  shows "default_session (run_op op s) \<noteq> None"
proof -
  have ok': "index_ok (run_op op s)"
    using assms(1,3) by (intro run_op_index_ok) auto
  from assms(1) have d: "distinct (map fst (sessions s))" by (simp add: index_ok_def)
  from ok' have d': "distinct (map fst (sessions (run_op op s)))" by (simp add: index_ok_def)
  from assms(2) obtain k x where kx: "map_of (sessions s) k = Some x" "is_default x"
    using has_default_iff [OF d] by blast
  have "\<exists>k x. map_of (sessions (run_op op s)) k = Some x \<and> is_default x"
  proof (cases op)
    case (Create i t n m)
    with assms(3) have "map_of (sessions s) i = None" by (simp add: get_session_def)
    with kx have "k \<noteq> i" by auto
    with kx Create show ?thesis
      by (auto simp: create_def Let_def save_sessions_def update_conv')
  next
    case (Switch i)
    with kx show ?thesis
      by (auto simp: switch_def save_sessions_def split: option.splits)
  next
    case (Delete i)
    show ?thesis
    proof (cases "map_of (sessions s) i")
      case None
      with kx Delete show ?thesis by (auto simp: delete_def)
    next
      case (Some y)
      show ?thesis
      proof (cases "is_default y")
        case True
        with kx Delete Some show ?thesis by (auto simp: delete_def)
      next
        case False
        with kx Some have "k \<noteq> i" by auto
        then have "map_of (AList.delete i (sessions s)) k = Some x"
          using kx by (simp add: delete_conv')
        with kx(2) Delete Some False show ?thesis
          by (auto simp: delete_def Let_def save_sessions_def split: option.splits)
      qed
    qed
  next
    case (Reset t i)
    have "\<exists>k' x'. map_of (AList.update j (y\<lparr>modified_at := t\<rparr>) (sessions s)) k' = Some x'
            \<and> is_default x'"
      if "map_of (sessions s) j = Some y" for j y
      using kx that by (cases "k = j") (auto simp: update_conv')
    with kx Reset show ?thesis
      by (auto simp: reset_def Let_def save_sessions_def split: option.splits)
  next
    case (UpdateModified t i)
    have "\<exists>k' x'. map_of (AList.update j (y\<lparr>modified_at := t\<rparr>) (sessions s)) k' = Some x'
            \<and> is_default x'"
      if "map_of (sessions s) j = Some y" for j y
      using kx that by (cases "k = j") (auto simp: update_conv')
    with kx UpdateModified show ?thesis
      by (auto simp: update_modified_def save_sessions_def split: option.splits)
  qed (use kx in auto)
  then show ?thesis using has_default_iff [OF d'] by simp
qed

text \<open>The first boot sets both up, with the default session current.\<close>

lemma first_boot_ok:
  "index_ok (init_sessions dir disk None now) \<and>
   default_session (init_sessions dir disk None now) \<noteq> None \<and>
   map_option is_default (get_current (init_sessions dir disk None now)) = Some True"
  by (simp add: init_sessions_def load_sessions_def create_default_session_def
        save_sessions_def default_session_def index_ok_def get_current_def Let_def)

section \<open>Properties of the execution bridge\<close>

text \<open>
  C2. Whatever the decoder, the tables and the other threads are: for a line the decoder
  rejects, \<^verbatim>\<open>handle_request\<close> returns (it does not raise) one failure response with
  the identifier ``unknown'' and the code \<^verbatim>\<open>PARSE_ERROR\<close>, and touches no table.
\<close>

theorem malformed_line_gets_parse_error:
  "from_ndjson_line request_data = Inl e \<Longrightarrow>
   handle_request from_ndjson_line during_wait server_ms request_data s
     = (Inr (Failure ''unknown'' PARSE_ERROR (''Invalid request: '' @ e) server_ms), s)"
  by (simp add: handle_request_def)

text \<open>A line the example decoder rejects.\<close>

theorem malformed_line_gets_parse_error_witness:
  "ex_decode ''{oops'' = Inl ''Expecting value: line 1 column 1 (char 0)'' \<and>
   handle_request ex_decode (process_queue ex_service) (1/4) ''{oops'' init_bridge
     = (Inr (Failure ''unknown'' PARSE_ERROR
               ''Invalid request: Expecting value: line 1 column 1 (char 0)'' (1/4)),
        init_bridge)"
proof -
  have d: "ex_decode ''{oops'' = Inl ''Expecting value: line 1 column 1 (char 0)''"
    by (simp add: ex_decode_def)
  from malformed_line_gets_parse_error
         [where from_ndjson_line = ex_decode and request_data = "''{oops''"
            and e = "''Expecting value: line 1 column 1 (char 0)''"
            and during_wait = "process_queue ex_service" and server_ms = "1/4"
            and s = init_bridge, OF d] d
  show ?thesis by simp
qed

text \<open>
  C8. On a timeout the registration is meant to be removed. It is not: when the main
  thread does not run the timer callback while the socket thread waits, the thread
  answers ``Operation timed out'' and the event it registered stays in
  \<^verbatim>\<open>result_events\<close>; when the callback runs later, the result it stores stays in
  \<^verbatim>\<open>result_store\<close>. The branch taken when the event is set does remove both.
\<close>

theorem timeout_leaves_registration:
  "fst (handle_request ex_decode (\<lambda>s. s) 30000 ''health'' init_bridge)
     = Inr (Failure ''r1'' INTERNAL_ERROR ''Operation timed out'' 30000) \<and>
   map_of (result_events (snd (handle_request ex_decode (\<lambda>s. s) 30000 ''health'' init_bridge))) ''r1''
     = Some 0 \<and>
   map_of (result_store (process_queue ex_service
       (snd (handle_request ex_decode (\<lambda>s. s) 30000 ''health'' init_bridge)))) ''r1''
     = Some (Ok [(''status'', ''healthy'')]) \<and>
   fst (handle_request ex_decode (process_queue ex_service) 12 ''health'' init_bridge)
     = Inr (Success ''r1'' [(''status'', ''healthy'')] 12) \<and>
   result_events (snd (handle_request ex_decode (process_queue ex_service) 12 ''health'' init_bridge))
     = [] \<and>
   result_store (snd (handle_request ex_decode (process_queue ex_service) 12 ''health'' init_bridge))
     = []"
  by (simp add: handle_request_def ex_decode_def ex_service_def init_bridge_def process_queue_def
        Let_def)

end
